theory Spec2Isabelle
  imports Complex_Main "HOL-Library.Multiset"
begin

section \<open>Travel itinerary builder: data model\<close>

text \<open>
  The development follows \<^verbatim>\<open>models.py\<close> and \<^verbatim>\<open>agent.py\<close>.

  Conventions of the embedding.
  \<^item> Python \<^verbatim>\<open>float\<close> values are idealised as \<^typ>\<open>real\<close>: every arithmetic
    operation is exact, \<^verbatim>\<open>math.sqrt\<close>, \<^verbatim>\<open>math.sin\<close>, \<^verbatim>\<open>math.cos\<close> and
    \<^verbatim>\<open>math.asin\<close> are the real functions, and \<^verbatim>\<open>round(x, 2)\<close> is rounding to the
    nearest hundredth with ties to the even hundredth. What depends on the rounding of
    the single float operations, which are the budget test of the day loop, the totals
    and the budget note, is stated on a second model of \<^verbatim>\<open>create_itinerary_simple\<close>,
    in which every float operation rounds its result.
  \<^item> Python \<^verbatim>\<open>int\<close> is \<^typ>\<open>int\<close>.
  \<^item> A \<^verbatim>\<open>datetime.date\<close> is its proleptic ordinal, an \<^typ>\<open>int\<close>;
    \<^verbatim>\<open>d + timedelta(days=k)\<close> is \<open>d + k\<close> and \<^verbatim>\<open>(e - s).days\<close> is \<open>e - s\<close>.
    The day loop only ever builds dates between the start date and the day before
    the end date, so the upper limit of \<^verbatim>\<open>date\<close> is never reached.
  \<^item> A \<^verbatim>\<open>str\<close> is a \<^typ>\<open>string\<close> of ASCII characters.
  \<^item> An \<^verbatim>\<open>Optional\<close> field is an \<^typ>\<open>'a option\<close>.
  \<^item> A pydantic model is a record together with a constructor function that runs the
    field constraints and validators and returns \<open>Inl ValidationError\<close> where pydantic
    raises. The field \<^verbatim>\<open>created_at\<close> of \<^verbatim>\<open>Itinerary\<close> (the wall clock) is left out.
  \<^item> \<^verbatim>\<open>DayPlan\<close> and \<^verbatim>\<open>Itinerary\<close> both have fields \<^verbatim>\<open>total_cost\<close> and \<^verbatim>\<open>notes\<close>.
    The field \<^verbatim>\<open>notes\<close> is \<open>day_notes\<close> in \<^verbatim>\<open>DayPlan\<close> and \<open>trip_notes\<close> in
    \<^verbatim>\<open>Itinerary\<close>, whose \<^verbatim>\<open>total_cost\<close> is \<open>trip_total_cost\<close>.
\<close>

datatype error = ValueError | ValidationError

record TripRequest =
  city :: string
  start_date :: int
  end_date :: int
  budget :: real
  interests :: "string list"
  pace :: string
  group_size :: int

record Place =
  name :: string
  category :: string
  latitude :: real
  longitude :: real
  estimated_cost :: real
  hours :: "string option"
  description :: "string option"
  rating :: "real option"
  time_needed :: int
  address :: "string option"

record DayPlan =
  day_index :: int
  day_date :: int
  places :: "Place list"
  total_cost :: real
  day_notes :: "string option"

record Itinerary =
  trip_request :: TripRequest
  days :: "DayPlan list"
  trip_total_cost :: real
  trip_notes :: "string option"


section \<open>Strings\<close>

text \<open>\<^verbatim>\<open>str.lower()\<close> on ASCII text: the letters A to Z move to a to z.\<close>

definition lower_char :: "char \<Rightarrow> char" where
  "lower_char c =
     (case map_of (zip ''ABCDEFGHIJKLMNOPQRSTUVWXYZ'' ''abcdefghijklmnopqrstuvwxyz'') c of
        Some l \<Rightarrow> l
      | None \<Rightarrow> c)"

definition lower :: "string \<Rightarrow> string" where
  "lower s = map lower_char s"

text \<open>\<^verbatim>\<open>needle in hay\<close> on strings: \<open>needle\<close> occurs as a contiguous substring.\<close>

fun str_in :: "string \<Rightarrow> string \<Rightarrow> bool" where
  "str_in needle [] = (needle = [])"
| "str_in needle (c # cs) =
     (take (length needle) (c # cs) = needle \<or> str_in needle cs)"

text \<open>\<^verbatim>\<open>str(n)\<close> of an integer, as its decimal digits.\<close>

fun digits_of :: "nat \<Rightarrow> string" where
  "digits_of n =
     (if n < 10 then [''0123456789'' ! n]
      else digits_of (n div 10) @ [''0123456789'' ! (n mod 10)])"

declare digits_of.simps [simp del]

definition str_int :: "int \<Rightarrow> string" where
  "str_int i = (if i < 0 then CHR ''-'' # digits_of (nat (- i)) else digits_of (nat i))"


section \<open>models.py: TripRequest\<close>

definition allowed :: "string list" where
  "allowed = [''relaxed'', ''moderate'', ''packed'']"

definition validate_pace :: "string \<Rightarrow> error + string" where
  "validate_pace v =
     (let v_lower = lower v
      in if v_lower \<notin> set allowed then Inl ValueError else Inr v_lower)"

text \<open>
  The second argument is \<^verbatim>\<open>info.data.get("start_date")\<close>: the start date when it has
  been validated already, which is the case for every typed call.
\<close>

definition validate_dates :: "int \<Rightarrow> int option \<Rightarrow> error + int" where
  "validate_dates v info_start =
     (case info_start of
        Some s \<Rightarrow> if v \<le> s then Inl ValueError else Inr v
      | None \<Rightarrow> Inr v)"

text \<open>
  Construction of a \<^verbatim>\<open>TripRequest\<close>. The fields \<^verbatim>\<open>interests\<close>, \<^verbatim>\<open>pace\<close> and
  \<^verbatim>\<open>group_size\<close> have defaults, taken without validation when the argument is absent
  (\<open>None\<close>). Any failing constraint or validator makes the construction raise
  \<^verbatim>\<open>ValidationError\<close>.
\<close>

definition TripRequest_init ::
  "string \<Rightarrow> int \<Rightarrow> int \<Rightarrow> real \<Rightarrow> string list option \<Rightarrow> string option \<Rightarrow> int option
     \<Rightarrow> error + TripRequest" where
  "TripRequest_init c s e b i p g =
     (let end_r = validate_dates e (Some s);
          budget_ok = (0 < b);
          pace_r = (case p of None \<Rightarrow> Inr ''moderate'' | Some v \<Rightarrow> validate_pace v);
          group_ok = (case g of None \<Rightarrow> True | Some n \<Rightarrow> 0 < n)
      in case (end_r, pace_r) of
           (Inr e', Inr p') \<Rightarrow>
             if budget_ok \<and> group_ok
             then Inr \<lparr> city = c, start_date = s, end_date = e', budget = b,
                        interests = (case i of None \<Rightarrow> [] | Some l \<Rightarrow> l),
                        pace = p',
                        group_size = (case g of None \<Rightarrow> 1 | Some n \<Rightarrow> n) \<rparr>
             else Inl ValidationError
         | _ \<Rightarrow> Inl ValidationError)"

definition num_days :: "TripRequest \<Rightarrow> int" where
  "num_days r = end_date r - start_date r"

definition daily_budget :: "TripRequest \<Rightarrow> real" where
  "daily_budget r = budget r / real_of_int (max (num_days r) 1)"

text \<open>
  The requests that construction lets through: the state every \<^verbatim>\<open>TripRequest\<close> object
  is in. Likewise for \<^verbatim>\<open>Place\<close>, whose constraints are \<^verbatim>\<open>estimated_cost >= 0\<close> and
  \<^verbatim>\<open>0 <= rating <= 5\<close> when a rating is present.
\<close>

definition valid_TripRequest :: "TripRequest \<Rightarrow> bool" where
  "valid_TripRequest r =
     (start_date r < end_date r \<and> 0 < budget r \<and> 0 < group_size r \<and> pace r \<in> set allowed)"

definition valid_Place :: "Place \<Rightarrow> bool" where
  "valid_Place p =
     (0 \<le> estimated_cost p \<and>
      (case rating p of None \<Rightarrow> True | Some x \<Rightarrow> 0 \<le> x \<and> x \<le> 5))"


section \<open>models.py: DayPlan and Itinerary\<close>

text \<open>
  \<^verbatim>\<open>DayPlan\<close> requires \<^verbatim>\<open>day_index >= 1\<close> and \<^verbatim>\<open>total_cost >= 0\<close>; \<^verbatim>\<open>Itinerary\<close>
  requires \<^verbatim>\<open>total_cost >= 0\<close>.
\<close>

definition DayPlan_init ::
  "int \<Rightarrow> int \<Rightarrow> Place list \<Rightarrow> real \<Rightarrow> string option \<Rightarrow> error + DayPlan" where
  "DayPlan_init i d ps c n =
     (if 1 \<le> i \<and> 0 \<le> c
      then Inr \<lparr> day_index = i, day_date = d, places = ps, total_cost = c, day_notes = n \<rparr>
      else Inl ValidationError)"

definition Itinerary_init ::
  "TripRequest \<Rightarrow> DayPlan list \<Rightarrow> real \<Rightarrow> string option \<Rightarrow> error + Itinerary" where
  "Itinerary_init r ds c n =
     (if 0 \<le> c
      then Inr \<lparr> trip_request = r, days = ds, trip_total_cost = c, trip_notes = n \<rparr>
      else Inl ValidationError)"


section \<open>Numbers\<close>

text \<open>\<^verbatim>\<open>round(x, ndigits)\<close>: to the nearest multiple of \<open>10 ^ -ndigits\<close>, ties to even.\<close>

definition round_half_even :: "real \<Rightarrow> int" where
  "round_half_even x =
     (let f = \<lfloor>x\<rfloor>; d = x - of_int f
      in if d < 1 / 2 then f
         else if 1 / 2 < d then f + 1
         else if even f then f else f + 1)"

definition py_round :: "real \<Rightarrow> nat \<Rightarrow> real" where
  "py_round x ndigits = of_int (round_half_even (x * 10 ^ ndigits)) / 10 ^ ndigits"

definition radians :: "real \<Rightarrow> real" where
  "radians x = x * pi / 180"


section \<open>agent.py: distance and the ranking tool\<close>

definition calculate_distance :: "real \<Rightarrow> real \<Rightarrow> real \<Rightarrow> real \<Rightarrow> real" where
  "calculate_distance lat1 lon1 lat2 lon2 =
     (let R = 6371;
          lat1_rad = radians lat1;
          lat2_rad = radians lat2;
          delta_lat = radians (lat2 - lat1);
          delta_lon = radians (lon2 - lon1);
          a = (sin (delta_lat / 2))\<^sup>2
              + cos lat1_rad * cos lat2_rad * (sin (delta_lon / 2))\<^sup>2;
          c = 2 * arcsin (sqrt a)
      in R * c)"

text \<open>
  The loop \<^verbatim>\<open>for interest in interests: if ...: score += 5.0\<close>, on the running score.
\<close>

fun interest_match :: "string list \<Rightarrow> Place \<Rightarrow> real \<Rightarrow> real" where
  "interest_match [] place score = score"
| "interest_match (interest # rest) place score =
     interest_match rest place
       (if str_in (lower interest) (lower (category place))
           \<or> str_in (lower interest) (lower (name place))
        then score + 5 else score)"

text \<open>The body of the scoring loop of \<^verbatim>\<open>rank_places_by_relevance\<close>, for one place.\<close>

definition relevance_score :: "TripRequest \<Rightarrow> real \<times> real \<Rightarrow> Place \<Rightarrow> real" where
  "relevance_score trip city_coords place =
     (let (city_lat, city_lon) = city_coords;
          score = interest_match (interests trip) place 0;
          distance = calculate_distance city_lat city_lon (latitude place) (longitude place);
          proximity_score = max 0 (5 - distance / 2);
          score = score + proximity_score;
          score = (case rating place of
                     None \<Rightarrow> score
                   | Some r \<Rightarrow> if r \<noteq> 0 then score + r else score);
          score = (if estimated_cost place < daily_budget trip / 3 then score + 2 else score)
      in score)"

text \<open>
  \<^verbatim>\<open>xs.sort(key=lambda x: x[1], reverse=True)\<close>: Python's list sort is stable, also
  with \<^verbatim>\<open>reverse=True\<close>; the stable sort of a list by a key is unique, here the
  insertion sort of the library on the negated key.
\<close>

definition sort_by_score_reverse :: "('a \<times> real) list \<Rightarrow> ('a \<times> real) list" where
  "sort_by_score_reverse scored = sort_key (\<lambda>x. - snd x) scored"

definition rank_places_by_relevance ::
  "TripRequest \<Rightarrow> Place list \<Rightarrow> real \<times> real \<Rightarrow> Place list" where
  "rank_places_by_relevance trip available_places city_coords =
     (let scored_places =
            map (\<lambda>place. (place, relevance_score trip city_coords place)) available_places
      in map fst (sort_by_score_reverse scored_places))"


section \<open>agent.py: create_itinerary_simple\<close>

text \<open>The body of the scoring loop of \<^verbatim>\<open>create_itinerary_simple\<close>, for one place.\<close>

definition simple_score :: "TripRequest \<Rightarrow> real \<times> real \<Rightarrow> Place \<Rightarrow> real" where
  "simple_score trip city_coords place =
     (let (city_lat, city_lon) = city_coords;
          score = interest_match (interests trip) place 0;
          distance = sqrt ((latitude place - city_lat)\<^sup>2 + (longitude place - city_lon)\<^sup>2);
          score = score + max 0 (5 - distance * 100);
          score = (case rating place of
                     None \<Rightarrow> score
                   | Some r \<Rightarrow> if r \<noteq> 0 then score + r else score);
          score = (if estimated_cost place < daily_budget trip / 3
                   then score + 2 else score)
      in score)"

text \<open>The first half of the function, up to the variable \<^verbatim>\<open>ranked_places\<close>.\<close>

definition ranked_places :: "TripRequest \<Rightarrow> Place list \<Rightarrow> real \<times> real \<Rightarrow> Place list" where
  "ranked_places trip places_in city_coords =
     (let scored_places =
            map (\<lambda>place. (place, simple_score trip city_coords place)) places_in
      in map fst (sort_by_score_reverse scored_places))"

definition pace_map :: "string \<rightharpoonup> nat" where
  "pace_map = [''relaxed'' \<mapsto> 2, ''moderate'' \<mapsto> 3, ''packed'' \<mapsto> 5]"

definition target_places_per_day :: "TripRequest \<Rightarrow> nat" where
  "target_places_per_day trip =
     (case pace_map (pace trip) of Some n \<Rightarrow> n | None \<Rightarrow> 3)"

text \<open>
  The inner \<^verbatim>\<open>while\<close> loop of a day, on the state
  \<open>(day_places, day_cost, current_index)\<close>. The three tests are nested as the
  short-circuit \<^verbatim>\<open>and\<close> evaluates them, so the list is read only inside its range.
\<close>

function add_places ::
  "TripRequest \<Rightarrow> Place list \<Rightarrow> Place list \<times> real \<times> nat \<Rightarrow> Place list \<times> real \<times> nat" where
  "add_places trip ranked (day_places, day_cost, current_index) =
     (if length day_places < target_places_per_day trip then
        if current_index < length ranked then
          if day_cost
               + estimated_cost (ranked ! current_index) * real_of_int (group_size trip)
             \<le> daily_budget trip * 1.2
          then add_places trip ranked
                 (day_places @ [ranked ! current_index],
                  day_cost
                    + estimated_cost (ranked ! current_index)
                        * real_of_int (group_size trip),
                  current_index + 1)
          else (day_places, day_cost, current_index)
        else (day_places, day_cost, current_index)
      else (day_places, day_cost, current_index))"
  by pat_completeness auto
termination
  by (relation "measure (\<lambda>(trip, ranked, day_places, day_cost, current_index).
                           length ranked - current_index)") auto

declare add_places.simps [simp del]

text \<open>
  The loop \<^verbatim>\<open>for day_num in range(1, num_days + 1)\<close>, over the list of day numbers
  still to come, on the state \<open>(daily_plans, current_index)\<close>. Building a
  \<^verbatim>\<open>DayPlan\<close> may raise, which ends the loop.
\<close>

fun day_loop ::
  "TripRequest \<Rightarrow> Place list \<Rightarrow> int list \<Rightarrow> DayPlan list \<times> nat \<Rightarrow> error + DayPlan list \<times> nat"
  where
  "day_loop trip ranked [] (daily_plans, current_index) =
     Inr (daily_plans, current_index)"
| "day_loop trip ranked (day_num # rest) (daily_plans, current_index) =
     (let day_date = start_date trip + (day_num - 1);
          meal_cost = 40 * real_of_int (group_size trip);
          (day_places, day_cost, current_index') =
             add_places trip ranked ([], 0 + meal_cost, current_index);
          transport_cost = 15 * real_of_int (group_size trip);
          day_cost = day_cost + transport_cost;
          note = ''Includes meals (~$'' @ str_int (40 * group_size trip)
                  @ '') and transport (~$'' @ str_int (15 * group_size trip) @ '')''
      in case DayPlan_init day_num day_date day_places (py_round day_cost 2) (Some note) of
           Inl e \<Rightarrow> Inl e
         | Inr plan \<Rightarrow>
             day_loop trip ranked rest (daily_plans @ [plan], current_index'))"

text \<open>
  The allocation half of the function, up to the variable \<^verbatim>\<open>daily_plans\<close>. The
  agent tool \<^verbatim>\<open>allocate_places_to_days\<close> repeats the same two loops on the request of
  the agent's context; the entry point \<^verbatim>\<open>create_itinerary\<close> runs
  \<^verbatim>\<open>create_itinerary_simple\<close> whenever no language model is configured, and the
  properties below are about this function.
\<close>

definition daily_plans :: "TripRequest \<Rightarrow> Place list \<Rightarrow> error + DayPlan list" where
  "daily_plans trip ranked =
     (case day_loop trip ranked [1 .. num_days trip] ([], 0) of
        Inl e \<Rightarrow> Inl e
      | Inr (plans, current_index) \<Rightarrow> Inr plans)"

definition create_itinerary_simple ::
  "TripRequest \<Rightarrow> Place list \<Rightarrow> real \<times> real \<Rightarrow> error + Itinerary" where
  "create_itinerary_simple trip places_in city_coords =
     (let ranked = ranked_places trip places_in city_coords
      in case daily_plans trip ranked of
           Inl e \<Rightarrow> Inl e
         | Inr plans \<Rightarrow>
             (let total = sum_list (map total_cost plans);
                  budget_status = (if total \<le> budget trip
                                   then ''within budget'' else ''slightly over budget'');
                  note = ''Itinerary created for '' @ str_int (num_days trip)
                          @ '' days with '' @ pace trip
                          @ '' pace. Total cost is '' @ budget_status @ ''.''
              in Itinerary_init trip plans (py_round total 2) (Some note)))"


section \<open>agent.py: create_itinerary_simple on floats\<close>

text \<open>
  The functions above compute in exact reals. Which place still fits under the ceiling
  of a day, and what a total rounds to, depends on the rounding of every single float
  operation. For these properties \<^verbatim>\<open>create_itinerary_simple\<close> is modelled a second
  time, operation by operation: a float is the real number it denotes, and an
  operation computes the exact result and rounds it with \<open>rnd\<close>, the rounding function
  of the float arithmetic, which the functions take as their first argument. With the
  identity for \<open>rnd\<close> they are the functions above, which is proved below.

  Python's floats are binary64 numbers, rounded to nearest with ties to even. This is
  \<open>double_round\<close>, with an unbounded exponent: no overflow and no subnormal numbers.
\<close>

definition double_round :: "real \<Rightarrow> real" where
  "double_round x =
     (if x = 0 then 0
      else let e = \<lfloor>log 2 \<bar>x\<bar>\<rfloor>;
               ulp = 2 powr (of_int e - 52)
           in of_int (round_half_even (x / ulp)) * ulp)"

text \<open>The conversion of an \<^verbatim>\<open>int\<close> operand of a float operation.\<close>

definition float_of_int :: "(real \<Rightarrow> real) \<Rightarrow> int \<Rightarrow> real" where
  "float_of_int rnd n = rnd (of_int n)"

text \<open>
  \<^verbatim>\<open>round(x, ndigits)\<close> of a float: the exact value of \<open>x\<close> is rounded to the nearest
  multiple of \<open>10 ^ -ndigits\<close>, ties to even, and the float next to that decimal
  is returned.
\<close>

definition py_round_fl :: "(real \<Rightarrow> real) \<Rightarrow> real \<Rightarrow> nat \<Rightarrow> real" where
  "py_round_fl rnd x ndigits =
     rnd (of_int (round_half_even (x * 10 ^ ndigits)) / 10 ^ ndigits)"

text \<open>
  \<^verbatim>\<open>sum\<close> over floats by repeated addition from the left. The built-in adds this
  way up to Python 3.11 and with a compensation of the rounding errors from 3.12 on;
  the two agree on lists of at most two floats. \<^verbatim>\<open>create_itinerary_simple\<close> below
  takes the summation as an argument.
\<close>

definition float_sum :: "(real \<Rightarrow> real) \<Rightarrow> real list \<Rightarrow> real" where
  "float_sum rnd xs = foldl (\<lambda>s x. rnd (s + x)) 0 xs"

definition daily_budget_fl :: "(real \<Rightarrow> real) \<Rightarrow> TripRequest \<Rightarrow> real" where
  "daily_budget_fl rnd r = rnd (budget r / float_of_int rnd (max (num_days r) 1))"

fun interest_match_fl :: "(real \<Rightarrow> real) \<Rightarrow> string list \<Rightarrow> Place \<Rightarrow> real \<Rightarrow> real" where
  "interest_match_fl rnd [] place score = score"
| "interest_match_fl rnd (interest # rest) place score =
     interest_match_fl rnd rest place
       (if str_in (lower interest) (lower (category place))
           \<or> str_in (lower interest) (lower (name place))
        then rnd (score + 5) else score)"

definition simple_score_fl ::
  "(real \<Rightarrow> real) \<Rightarrow> TripRequest \<Rightarrow> real \<times> real \<Rightarrow> Place \<Rightarrow> real" where
  "simple_score_fl rnd trip city_coords place =
     (let (city_lat, city_lon) = city_coords;
          score = interest_match_fl rnd (interests trip) place 0;
          distance = rnd (sqrt (rnd (rnd ((rnd (latitude place - city_lat))\<^sup>2)
                                     + rnd ((rnd (longitude place - city_lon))\<^sup>2))));
          score = rnd (score + max 0 (rnd (5 - rnd (distance * 100))));
          score = (case rating place of
                     None \<Rightarrow> score
                   | Some r \<Rightarrow> if r \<noteq> 0 then rnd (score + r) else score);
          score = (if estimated_cost place < rnd (daily_budget_fl rnd trip / 3)
                   then rnd (score + 2) else score)
      in score)"

definition ranked_places_fl ::
  "(real \<Rightarrow> real) \<Rightarrow> TripRequest \<Rightarrow> Place list \<Rightarrow> real \<times> real \<Rightarrow> Place list" where
  "ranked_places_fl rnd trip places_in city_coords =
     (let scored_places =
            map (\<lambda>place. (place, simple_score_fl rnd trip city_coords place)) places_in
      in map fst (sort_by_score_reverse scored_places))"

function add_places_fl ::
  "(real \<Rightarrow> real) \<Rightarrow> TripRequest \<Rightarrow> Place list \<Rightarrow> Place list \<times> real \<times> nat
     \<Rightarrow> Place list \<times> real \<times> nat" where
  "add_places_fl rnd trip ranked (day_places, day_cost, current_index) =
     (if length day_places < target_places_per_day trip then
        if current_index < length ranked then
          if rnd (day_cost
                  + rnd (estimated_cost (ranked ! current_index)
                         * float_of_int rnd (group_size trip)))
             \<le> rnd (daily_budget_fl rnd trip * rnd 1.2)
          then add_places_fl rnd trip ranked
                 (day_places @ [ranked ! current_index],
                  rnd (day_cost
                       + rnd (estimated_cost (ranked ! current_index)
                              * float_of_int rnd (group_size trip))),
                  current_index + 1)
          else (day_places, day_cost, current_index)
        else (day_places, day_cost, current_index)
      else (day_places, day_cost, current_index))"
  by pat_completeness auto
termination
  by (relation "measure (\<lambda>(rnd, trip, ranked, day_places, day_cost, current_index).
                           length ranked - current_index)") auto

declare add_places_fl.simps [simp del]

text \<open>
  The format \<^verbatim>\<open>{meal_cost:.0f}\<close> prints the float rounded to a whole number, ties to
  even.
\<close>

fun day_loop_fl ::
  "(real \<Rightarrow> real) \<Rightarrow> TripRequest \<Rightarrow> Place list \<Rightarrow> int list \<Rightarrow> DayPlan list \<times> nat
     \<Rightarrow> error + DayPlan list \<times> nat"
  where
  "day_loop_fl rnd trip ranked [] (plans, current_index) =
     Inr (plans, current_index)"
| "day_loop_fl rnd trip ranked (day_num # rest) (plans, current_index) =
     (let day_date = start_date trip + (day_num - 1);
          meal_cost = rnd (40 * float_of_int rnd (group_size trip));
          (day_places, day_cost, current_index') =
             add_places_fl rnd trip ranked ([], rnd (0 + meal_cost), current_index);
          transport_cost = rnd (15 * float_of_int rnd (group_size trip));
          day_cost = rnd (day_cost + transport_cost);
          note = ''Includes meals (~$'' @ str_int (round_half_even meal_cost)
                  @ '') and transport (~$'' @ str_int (round_half_even transport_cost)
                  @ '')''
      in case DayPlan_init day_num day_date day_places (py_round_fl rnd day_cost 2)
                (Some note) of
           Inl e \<Rightarrow> Inl e
         | Inr plan \<Rightarrow>
             day_loop_fl rnd trip ranked rest (plans @ [plan], current_index'))"

definition daily_plans_fl ::
  "(real \<Rightarrow> real) \<Rightarrow> TripRequest \<Rightarrow> Place list \<Rightarrow> error + DayPlan list" where
  "daily_plans_fl rnd trip ranked =
     (case day_loop_fl rnd trip ranked [1 .. num_days trip] ([], 0) of
        Inl e \<Rightarrow> Inl e
      | Inr (plans, current_index) \<Rightarrow> Inr plans)"

definition create_itinerary_simple_fl ::
  "(real \<Rightarrow> real) \<Rightarrow> (real list \<Rightarrow> real) \<Rightarrow> TripRequest \<Rightarrow> Place list \<Rightarrow> real \<times> real
     \<Rightarrow> error + Itinerary" where
  "create_itinerary_simple_fl rnd fsum trip places_in city_coords =
     (let ranked = ranked_places_fl rnd trip places_in city_coords
      in case daily_plans_fl rnd trip ranked of
           Inl e \<Rightarrow> Inl e
         | Inr plans \<Rightarrow>
             (let total = fsum (map total_cost plans);
                  budget_status = (if total \<le> budget trip
                                   then ''within budget'' else ''slightly over budget'');
                  note = ''Itinerary created for '' @ str_int (num_days trip)
                          @ '' days with '' @ pace trip
                          @ '' pace. Total cost is '' @ budget_status @ ''.''
              in Itinerary_init trip plans (py_round_fl rnd total 2) (Some note)))"

text \<open>
  Names for three float expressions of the day loop: the cost of a place for the group,
  \<^verbatim>\<open>place.estimated_cost * trip_request.group_size\<close>; the ceiling
  \<^verbatim>\<open>trip_request.daily_budget * 1.2\<close>; and the value of \<^verbatim>\<open>day_cost\<close> after the
  meals and the places \<open>ps\<close> have been added to it, in this order.
\<close>

definition place_cost_fl :: "(real \<Rightarrow> real) \<Rightarrow> TripRequest \<Rightarrow> Place \<Rightarrow> real" where
  "place_cost_fl rnd trip place =
     rnd (estimated_cost place * float_of_int rnd (group_size trip))"

definition ceiling_fl :: "(real \<Rightarrow> real) \<Rightarrow> TripRequest \<Rightarrow> real" where
  "ceiling_fl rnd trip = rnd (daily_budget_fl rnd trip * rnd 1.2)"

definition running_cost_fl :: "(real \<Rightarrow> real) \<Rightarrow> TripRequest \<Rightarrow> Place list \<Rightarrow> real" where
  "running_cost_fl rnd trip ps =
     foldl (\<lambda>day_cost place. rnd (day_cost + place_cost_fl rnd trip place))
       (rnd (0 + rnd (40 * float_of_int rnd (group_size trip)))) ps"

text \<open>
  Two more names: the total of a day with the places \<open>ps\<close>, which is
  \<^verbatim>\<open>round(day_cost, 2)\<close> after the transport has been added, and the note of a day.
\<close>

definition day_total_fl :: "(real \<Rightarrow> real) \<Rightarrow> TripRequest \<Rightarrow> Place list \<Rightarrow> real" where
  "day_total_fl rnd trip ps =
     py_round_fl rnd
       (rnd (running_cost_fl rnd trip ps + rnd (15 * float_of_int rnd (group_size trip)))) 2"

definition day_note_fl :: "(real \<Rightarrow> real) \<Rightarrow> TripRequest \<Rightarrow> string" where
  "day_note_fl rnd trip =
     ''Includes meals (~$''
     @ str_int (round_half_even (rnd (40 * float_of_int rnd (group_size trip))))
     @ '') and transport (~$''
     @ str_int (round_half_even (rnd (15 * float_of_int rnd (group_size trip))))
     @ '')''"


section \<open>Example inputs\<close>

text \<open>
  A two-day trip for one traveller with a budget of 200 (so 100 a day, and a ceiling
  of 120 for a day's running cost), four places at the city centre \<open>(0, 0)\<close>, and
  one place 0.06 degrees of latitude north of it.
  They serve as the concrete inputs at which the theorems below are instantiated.
\<close>

definition demo_trip :: TripRequest where
  "demo_trip = \<lparr> city = ''Rome'', start_date = 739000, end_date = 739002, budget = 200,
                  interests = [''Museum''], pace = ''relaxed'', group_size = 1 \<rparr>"

definition demo_museum :: Place where
  "demo_museum = \<lparr> name = ''City Museum'', category = ''museum'', latitude = 0,
                    longitude = 0, estimated_cost = 15, hours = None, description = None,
                    rating = None, time_needed = 120, address = None \<rparr>"

definition demo_park :: Place where
  "demo_park = \<lparr> name = ''Riverside Park'', category = ''park'', latitude = 0,
                  longitude = 0, estimated_cost = 0, hours = None, description = None,
                  rating = None, time_needed = 120, address = None \<rparr>"

definition demo_garden :: Place where
  "demo_garden = \<lparr> name = ''Rose Garden'', category = ''garden'', latitude = 0,
                    longitude = 0, estimated_cost = 0, hours = None, description = None,
                    rating = None, time_needed = 60, address = None \<rparr>"

definition demo_gallery :: Place where
  "demo_gallery = \<lparr> name = ''Modern Gallery'', category = ''art'', latitude = 0,
                     longitude = 0, estimated_cost = 30, hours = None, description = None,
                     rating = Some 4, time_needed = 90, address = None \<rparr>"

definition demo_far :: Place where
  "demo_far = \<lparr> name = ''Hill Cafe'', category = ''cafe'', latitude = 3 / 50,
                 longitude = 0, estimated_cost = 50, hours = None, description = None,
                 rating = None, time_needed = 45, address = None \<rparr>"





definition cent_trip :: TripRequest where
  "cent_trip = \<lparr> city = ''Lyon'', start_date = 739000, end_date = 739002,
                  budget = double_round (11002 / 100),
                  interests = [], pace = ''relaxed'', group_size = 1 \<rparr>"

definition cent_kiosk :: Place where
  "cent_kiosk = \<lparr> name = ''Kiosk'', category = ''shop'', latitude = 0,
                   longitude = 0, estimated_cost = double_round (2 / 100), hours = None,
                   description = None, rating = None, time_needed = 10, address = None \<rparr>"

definition cent_stall :: Place where
  "cent_stall = \<lparr> name = ''Stall'', category = ''shop'', latitude = 0,
                   longitude = 0, estimated_cost = double_round (35 / 1000), hours = None,
                   description = None, rating = None, time_needed = 10, address = None \<rparr>"

definition cent_cart :: Place where
  "cent_cart = \<lparr> name = ''Cart'', category = ''shop'', latitude = 0,
                  longitude = 0, estimated_cost = double_round (1 / 100), hours = None,
                  description = None, rating = None, time_needed = 10, address = None \<rparr>"


section \<open>Properties of TripRequest construction\<close>

lemma lower_allowed: "x \<in> set allowed \<Longrightarrow> lower x = x"
  by (auto simp: allowed_def lower_def lower_char_def)

lemma TripRequest_init_Inr:
  "TripRequest_init c s e b i p g = Inr r \<longleftrightarrow>
     (s < e \<and> 0 < b \<and> (\<forall>n. g = Some n \<longrightarrow> 0 < n) \<and> (\<forall>v. p = Some v \<longrightarrow> lower v \<in> set allowed) \<and>
      r = \<lparr> city = c, start_date = s, end_date = e, budget = b,
             interests = (case i of None \<Rightarrow> [] | Some l \<Rightarrow> l),
             pace = (case p of None \<Rightarrow> ''moderate'' | Some v \<Rightarrow> lower v),
             group_size = (case g of None \<Rightarrow> 1 | Some n \<Rightarrow> n) \<rparr>)"
  by (auto simp: TripRequest_init_def validate_dates_def validate_pace_def Let_def
           split: option.splits sum.splits if_splits)

text \<open>
  Claim C10. Construction accepts a pace in any letter case: when the lowercased
  argument is one of the three allowed words, the validator returns the lowercased
  word, the construction succeeds and stores it; and the pace of every constructed
  request is one of the allowed words, hence its own lowercase form.
\<close>

theorem pace_case_insensitive:
  "(lower v \<in> set allowed \<longrightarrow> validate_pace v = Inr (lower v)) \<and>
   (lower v \<in> set allowed \<and> s < e \<and> 0 < b \<and> (\<forall>n. g = Some n \<longrightarrow> 0 < n) \<longrightarrow>
      (\<exists>r. TripRequest_init c s e b i (Some v) g = Inr r \<and> pace r = lower v)) \<and>
   (TripRequest_init c s e b i p g = Inr r \<longrightarrow>
      pace r \<in> set allowed \<and> lower (pace r) = pace r)"
proof (intro conjI impI)
  assume "lower v \<in> set allowed"
  then show "validate_pace v = Inr (lower v)"
    by (simp add: validate_pace_def)
next
  assume "lower v \<in> set allowed \<and> s < e \<and> 0 < b \<and> (\<forall>n. g = Some n \<longrightarrow> 0 < n)"
  then show "\<exists>r. TripRequest_init c s e b i (Some v) g = Inr r \<and> pace r = lower v"
    by (simp add: TripRequest_init_Inr)
next
  assume a: "TripRequest_init c s e b i p g = Inr r"
  then show "pace r \<in> set allowed"
    by (cases p) (auto simp: TripRequest_init_Inr allowed_def)
  then show "lower (pace r) = pace r"
    by (rule lower_allowed)
qed

theorem pace_case_insensitive_witness:
  "validate_pace ''PACKED'' = Inr ''packed'' \<and>
   (\<exists>r. TripRequest_init ''Rome'' 100 103 900 None (Some ''PACKED'') (Some 2) = Inr r
        \<and> pace r = ''packed'') \<and>
   lower ''packed'' = ''packed''"
  using pace_case_insensitive [of "''PACKED''" 100 103 900 "Some 2" "''Rome''" None
                                 "Some ''PACKED''"
                                 "\<lparr> city = ''Rome'', start_date = 100, end_date = 103,
                                    budget = 900, interests = [], pace = ''packed'',
                                    group_size = 2 \<rparr>"]
  by (simp add: TripRequest_init_Inr allowed_def lower_def lower_char_def)


section \<open>The allocation loops\<close>

lemma take_Suc_drop:
  "i < length xs \<Longrightarrow> take (Suc n) (drop i xs) = xs ! i # take n (drop (Suc i) xs)"
  by (metis Cons_nth_drop_Suc take_Suc_Cons)

lemma add_places_char:
  assumes "add_places trip ranked (dp, dc, cur) = (dp', dc', cur')"
  shows "\<exists>n. dp' = dp @ take n (drop cur ranked) \<and> cur' = cur + n
           \<and> (n = 0 \<or> cur + n \<le> length ranked)
           \<and> dc' = dc + (\<Sum>p\<leftarrow>take n (drop cur ranked).
                            estimated_cost p * real_of_int (group_size trip))
           \<and> (\<forall>k<n. length dp + k < target_places_per_day trip
                      \<and> cur + k < length ranked
                      \<and> dc + (\<Sum>p\<leftarrow>take (Suc k) (drop cur ranked).
                                 estimated_cost p * real_of_int (group_size trip))
                          \<le> daily_budget trip * 1.2)
           \<and> \<not> (length dp + n < target_places_per_day trip
                  \<and> cur + n < length ranked
                  \<and> dc + (\<Sum>p\<leftarrow>take (Suc n) (drop cur ranked).
                             estimated_cost p * real_of_int (group_size trip))
                      \<le> daily_budget trip * 1.2)"
  using assms
proof (induction trip ranked "(dp, dc, cur)" arbitrary: dp dc cur rule: add_places.induct)
  case (1 trip ranked dp dc cur)
  let ?g = "real_of_int (group_size trip)"
  let ?x = "ranked ! cur"
  let ?go = "length dp < target_places_per_day trip \<and> cur < length ranked
             \<and> dc + estimated_cost ?x * ?g \<le> daily_budget trip * 1.2"
  show ?case
  proof (cases ?go)
    case False
    then have "add_places trip ranked (dp, dc, cur) = (dp, dc, cur)"
      by (subst add_places.simps) auto
    then have "dp' = dp" "dc' = dc" "cur' = cur"
      using "1.prems" by simp_all
    moreover have "cur < length ranked \<Longrightarrow>
        (\<Sum>p\<leftarrow>take (Suc 0) (drop cur ranked). estimated_cost p * ?g) = estimated_cost ?x * ?g"
      by (simp add: take_Suc_drop)
    ultimately show ?thesis
      using False by (intro exI [of _ 0]) auto
  next
    case True
    then have rec: "add_places trip ranked (dp @ [?x], dc + estimated_cost ?x * ?g, cur + 1)
                    = (dp', dc', cur')"
      using "1.prems" by (subst (asm) add_places.simps) simp
    from "1.hyps" [OF _ _ _ rec] True
    obtain n where n:
      "dp' = (dp @ [?x]) @ take n (drop (cur + 1) ranked)" "cur' = cur + 1 + n"
      "n = 0 \<or> cur + 1 + n \<le> length ranked"
      "dc' = dc + estimated_cost ?x * ?g
             + (\<Sum>p\<leftarrow>take n (drop (cur + 1) ranked). estimated_cost p * ?g)"
      "\<forall>k<n. length (dp @ [?x]) + k < target_places_per_day trip
             \<and> cur + 1 + k < length ranked
             \<and> dc + estimated_cost ?x * ?g
                 + (\<Sum>p\<leftarrow>take (Suc k) (drop (cur + 1) ranked). estimated_cost p * ?g)
                 \<le> daily_budget trip * 1.2"
      "\<not> (length (dp @ [?x]) + n < target_places_per_day trip
          \<and> cur + 1 + n < length ranked
          \<and> dc + estimated_cost ?x * ?g
              + (\<Sum>p\<leftarrow>take (Suc n) (drop (cur + 1) ranked). estimated_cost p * ?g)
              \<le> daily_budget trip * 1.2)"
      by auto
    have cur: "cur < length ranked" using True by simp
    have tk: "\<And>m. take (Suc m) (drop cur ranked) = ?x # take m (drop (Suc cur) ranked)"
      using cur by (rule take_Suc_drop)
    have all: "length dp + k < target_places_per_day trip
                 \<and> cur + k < length ranked
                 \<and> dc + (\<Sum>p\<leftarrow>take (Suc k) (drop cur ranked). estimated_cost p * ?g)
                     \<le> daily_budget trip * 1.2" if "k < Suc n" for k
    proof (cases k)
      case 0
      then show ?thesis using True by (simp add: tk)
    next
      case (Suc j)
      then have "j < n" using that by simp
      with n(5) show ?thesis by (simp add: Suc tk add.assoc)
    qed
    have le: "cur + Suc n \<le> length ranked"
      using n(3) cur by auto
    show ?thesis
      using n(1,2,4,6) all le by (intro exI [of _ "Suc n"]) (auto simp: tk add.assoc)
  qed
qed


lemma day_loop_Cons:
  "day_loop trip ranked (d # ds) (acc, cur) =
     (case add_places trip ranked ([], 40 * real_of_int (group_size trip), cur) of
        (dp, dc, c1) \<Rightarrow>
          if 1 \<le> d \<and> 0 \<le> py_round (dc + 15 * real_of_int (group_size trip)) 2
          then day_loop trip ranked ds
                 (acc @ [\<lparr> day_index = d, day_date = start_date trip + (d - 1), places = dp,
                            total_cost = py_round (dc + 15 * real_of_int (group_size trip)) 2,
                            day_notes = Some (''Includes meals (~$''
                               @ str_int (40 * group_size trip)
                               @ '') and transport (~$''
                               @ str_int (15 * group_size trip) @ '')'') \<rparr>], c1)
          else Inl ValidationError)"
  apply (cases "add_places trip ranked ([], 40 * real_of_int (group_size trip), cur)")
  apply (simp only: day_loop.simps Let_def prod.case DayPlan_init_def add_0)
  apply (simp only: if_distrib [of "case_sum Inl f" for f] sum.case cong: if_cong)
  done

declare day_loop.simps(2) [simp del]

lemma day_loop_fail:
  assumes "add_places trip ranked ([], 40 * real_of_int (group_size trip), cur) = (dp, dc, c1)"
    and "\<not> (1 \<le> d \<and> 0 \<le> py_round (dc + 15 * real_of_int (group_size trip)) 2)"
  shows "day_loop trip ranked (d # ds) (acc, cur) = Inl ValidationError"
  by (simp only: day_loop_Cons assms(1) prod.case if_not_P [OF assms(2)])

lemma day_loop_ok:
  assumes "add_places trip ranked ([], 40 * real_of_int (group_size trip), cur) = (dp, dc, c1)"
    and "1 \<le> d \<and> 0 \<le> py_round (dc + 15 * real_of_int (group_size trip)) 2"
  shows "day_loop trip ranked (d # ds) (acc, cur) =
           day_loop trip ranked ds
             (acc @ [\<lparr> day_index = d, day_date = start_date trip + (d - 1), places = dp,
                        total_cost = py_round (dc + 15 * real_of_int (group_size trip)) 2,
                        day_notes = Some (''Includes meals (~$''
                           @ str_int (40 * group_size trip)
                           @ '') and transport (~$''
                           @ str_int (15 * group_size trip) @ '')'') \<rparr>], c1)"
  by (simp only: day_loop_Cons assms(1) prod.case if_P [OF assms(2)])

lemma day_loop_acc:
  "day_loop trip ranked ds (acc, cur) =
     (case day_loop trip ranked ds ([], cur) of
        Inl e \<Rightarrow> Inl e
      | Inr (new, c) \<Rightarrow> Inr (acc @ new, c))"
proof (induction ds arbitrary: acc cur)
  case Nil
  show ?case by simp
next
  case (Cons d ds)
  obtain dp dc c1 where ap:
    "add_places trip ranked ([], 40 * real_of_int (group_size trip), cur) = (dp, dc, c1)"
    by (cases "add_places trip ranked ([], 40 * real_of_int (group_size trip), cur)") auto
  show ?case
  proof (cases "1 \<le> d \<and> 0 \<le> py_round (dc + 15 * real_of_int (group_size trip)) 2")
    case False
    show ?thesis
      by (simp only: day_loop_fail [OF ap False] sum.case)
  next
    case True
    define plan where
      "plan = \<lparr> day_index = d, day_date = start_date trip + (d - 1), places = dp,
                 total_cost = py_round (dc + 15 * real_of_int (group_size trip)) 2,
                 day_notes = Some (''Includes meals (~$''
                    @ str_int (40 * group_size trip)
                    @ '') and transport (~$''
                    @ str_int (15 * group_size trip) @ '')'') \<rparr>"
    have l: "day_loop trip ranked (d # ds) (acc, cur)
             = day_loop trip ranked ds (acc @ [plan], c1)" for acc
      unfolding plan_def by (rule day_loop_ok [OF ap True])
    have a: "day_loop trip ranked ds (acc @ [plan], c1) =
               (case day_loop trip ranked ds ([], c1) of
                  Inl e \<Rightarrow> Inl e
                | Inr (new, c) \<Rightarrow> Inr ((acc @ [plan]) @ new, c))" for acc
      by (rule Cons.IH)
    show ?thesis
      by (simp add: l a [of acc] a [of "[]", simplified] split: sum.splits)
  qed
qed

lemma day_loop_induct [consumes 1, case_names Nil Cons]:
  assumes run: "day_loop trip ranked ds ([], cur) = Inr (plans, cur')"
    and nil: "\<And>cur. P [] cur cur []"
    and cons: "\<And>d ds cur n rest cur'.
        1 \<le> d \<Longrightarrow>
        n = 0 \<or> cur + n \<le> length ranked \<Longrightarrow>
        0 \<le> py_round (40 * real_of_int (group_size trip)
                      + (\<Sum>p\<leftarrow>take n (drop cur ranked).
                            estimated_cost p * real_of_int (group_size trip))
                      + 15 * real_of_int (group_size trip)) 2 \<Longrightarrow>
        (\<forall>k<n. k < target_places_per_day trip
               \<and> cur + k < length ranked
               \<and> 40 * real_of_int (group_size trip)
                   + (\<Sum>p\<leftarrow>take (Suc k) (drop cur ranked).
                         estimated_cost p * real_of_int (group_size trip))
                   \<le> daily_budget trip * 1.2) \<Longrightarrow>
        \<not> (n < target_places_per_day trip
           \<and> cur + n < length ranked
           \<and> 40 * real_of_int (group_size trip)
               + (\<Sum>p\<leftarrow>take (Suc n) (drop cur ranked).
                     estimated_cost p * real_of_int (group_size trip))
               \<le> daily_budget trip * 1.2) \<Longrightarrow>
        day_loop trip ranked ds ([], cur + n) = Inr (rest, cur') \<Longrightarrow>
        P ds (cur + n) cur' rest \<Longrightarrow>
        P (d # ds) cur cur'
          (\<lparr> day_index = d, day_date = start_date trip + (d - 1),
              places = take n (drop cur ranked),
              total_cost = py_round (40 * real_of_int (group_size trip)
                      + (\<Sum>p\<leftarrow>take n (drop cur ranked).
                            estimated_cost p * real_of_int (group_size trip))
                      + 15 * real_of_int (group_size trip)) 2,
              day_notes = Some (''Includes meals (~$''
                           @ str_int (40 * group_size trip)
                           @ '') and transport (~$''
                           @ str_int (15 * group_size trip) @ '')'') \<rparr> # rest)"
  shows "P ds cur cur' plans"
  using run
proof (induction ds arbitrary: cur plans)
  case Nil
  then show ?case using nil by simp
next
  case (Cons d ds)
  let ?g = "real_of_int (group_size trip)"
  obtain dp dc c1 where ap: "add_places trip ranked ([], 40 * ?g, cur) = (dp, dc, c1)"
    by (cases "add_places trip ranked ([], 40 * ?g, cur)") auto
  from add_places_char [OF ap] obtain n where n:
    "dp = take n (drop cur ranked)" "c1 = cur + n" "n = 0 \<or> cur + n \<le> length ranked"
    "dc = 40 * ?g + (\<Sum>p\<leftarrow>take n (drop cur ranked). estimated_cost p * ?g)"
    "\<forall>k<n. k < target_places_per_day trip \<and> cur + k < length ranked
        \<and> 40 * ?g + (\<Sum>p\<leftarrow>take (Suc k) (drop cur ranked). estimated_cost p * ?g)
            \<le> daily_budget trip * 1.2"
    "\<not> (n < target_places_per_day trip \<and> cur + n < length ranked
        \<and> 40 * ?g + (\<Sum>p\<leftarrow>take (Suc n) (drop cur ranked). estimated_cost p * ?g)
            \<le> daily_budget trip * 1.2)"
    by auto
  have ok: "1 \<le> d \<and> 0 \<le> py_round (dc + 15 * ?g) 2"
  proof (rule ccontr)
    assume "\<not> ?thesis"
    from day_loop_fail [OF ap this] Cons.prems show False by simp
  qed
  define plan where
    "plan = \<lparr> day_index = d, day_date = start_date trip + (d - 1), places = dp,
               total_cost = py_round (dc + 15 * ?g) 2,
               day_notes = Some (''Includes meals (~$''
                  @ str_int (40 * group_size trip)
                  @ '') and transport (~$''
                  @ str_int (15 * group_size trip) @ '')'') \<rparr>"
  have "day_loop trip ranked (d # ds) ([], cur) = day_loop trip ranked ds ([] @ [plan], c1)"
    unfolding plan_def by (rule day_loop_ok [OF ap ok])
  then have "day_loop trip ranked ds ([plan], c1) = Inr (plans, cur')"
    using Cons.prems by simp
  then obtain rest where rest:
    "day_loop trip ranked ds ([], c1) = Inr (rest, cur')" "plans = plan # rest"
    by (subst (asm) day_loop_acc) (auto split: sum.splits)
  have "P ds (cur + n) cur' rest"
    using rest(1) Cons.IH n(2) by simp
  from cons [OF _ n(3) _ n(5) n(6) rest(1) [unfolded n(2)] this, of d] ok
  show ?case
    unfolding rest(2) plan_def n(1) n(4) by simp
qed


section \<open>Rounding\<close>

lemma round_half_even_of_int: "round_half_even (of_int n) = n"
  by (simp add: round_half_even_def)

lemma round_half_even_bounds:
  "\<lfloor>x\<rfloor> \<le> round_half_even x \<and> round_half_even x \<le> \<lfloor>x\<rfloor> + 1"
  by (simp add: round_half_even_def Let_def)

lemma round_half_even_mono:
  assumes "x \<le> y"
  shows "round_half_even x \<le> round_half_even y"
proof (cases "\<lfloor>x\<rfloor> = \<lfloor>y\<rfloor>")
  case True
  then show ?thesis
    using assms by (auto simp: round_half_even_def Let_def)
next
  case False
  then have "\<lfloor>x\<rfloor> + 1 \<le> \<lfloor>y\<rfloor>"
    using floor_mono [OF assms] by linarith
  then show ?thesis
    using round_half_even_bounds [of x] round_half_even_bounds [of y] by linarith
qed

lemma py_round_mono: "x \<le> y \<Longrightarrow> py_round x n \<le> py_round y n"
  by (simp add: py_round_def divide_right_mono round_half_even_mono)

lemma py_round_hundredths: "py_round (of_int k / 100) 2 = of_int k / 100"
  by (simp add: py_round_def round_half_even_of_int)

lemma py_round_of_int: "py_round (of_int k) 2 = of_int k"
  using py_round_hundredths [of "k * 100"] by simp

lemma py_round_is_hundredth: "\<exists>k. py_round x 2 = of_int k / 100"
  by (auto simp: py_round_def)

lemma sum_list_hundredths:
  "\<forall>x\<in>set xs. \<exists>k. x = real_of_int k / 100 \<Longrightarrow> \<exists>k. sum_list xs = real_of_int k / 100"
proof (induction xs)
  case Nil
  show ?case by (rule exI [of _ 0]) simp
next
  case (Cons x xs)
  then obtain a b where "x = real_of_int a / 100" "sum_list xs = real_of_int b / 100"
    by auto
  then show ?case
    by (intro exI [of _ "a + b"]) (simp add: add_divide_distrib)
qed


section \<open>Properties of the day loop\<close>

lemma cost_sum_nonneg:
  assumes "0 \<le> g" and "\<forall>p\<in>set ranked. 0 \<le> estimated_cost p"
  shows "0 \<le> (\<Sum>p\<leftarrow>take n (drop cur ranked). estimated_cost p * g)"
proof (rule sum_list_nonneg)
  fix x
  assume "x \<in> set (map (\<lambda>p. estimated_cost p * g) (take n (drop cur ranked)))"
  then obtain p where "p \<in> set (take n (drop cur ranked))" "x = estimated_cost p * g"
    by auto
  moreover have "p \<in> set ranked" if "p \<in> set (take n (drop cur ranked))" for p
    using that by (meson in_set_dropD in_set_takeD)
  ultimately show "0 \<le> x"
    using assms by simp
qed

lemma day_loop_returns:
  assumes "\<forall>d\<in>set ds. 1 \<le> d" and "0 \<le> group_size trip"
    and "\<forall>p\<in>set ranked. 0 \<le> estimated_cost p"
  shows "\<exists>plans c. day_loop trip ranked ds ([], cur) = Inr (plans, c)"
  using assms(1)
proof (induction ds arbitrary: cur)
  case Nil
  show ?case by simp
next
  case (Cons d ds)
  let ?g = "real_of_int (group_size trip)"
  have g: "0 \<le> ?g" using assms(2) by simp
  obtain dp dc c1 where ap: "add_places trip ranked ([], 40 * ?g, cur) = (dp, dc, c1)"
    by (cases "add_places trip ranked ([], 40 * ?g, cur)") auto
  from add_places_char [OF ap] obtain n where
    "dc = 40 * ?g + (\<Sum>p\<leftarrow>take n (drop cur ranked). estimated_cost p * ?g)"
    by auto
  then have "0 \<le> dc + 15 * ?g"
    using cost_sum_nonneg [OF g assms(3), of n cur] g by simp
  then have "py_round 0 2 \<le> py_round (dc + 15 * ?g) 2"
    by (rule py_round_mono)
  then have ok: "1 \<le> d \<and> 0 \<le> py_round (dc + 15 * ?g) 2"
    using Cons.prems py_round_of_int [of 0] by simp
  from Cons.IH [of c1] Cons.prems obtain rest c where
    rest: "day_loop trip ranked ds ([], c1) = Inr (rest, c)"
    by auto
  show ?case
    by (subst day_loop_ok [OF ap ok], subst day_loop_acc) (simp add: rest)
qed

lemma day_loop_struct:
  assumes "day_loop trip ranked ds ([], cur) = Inr (plans, cur')"
  shows "length plans = length ds \<and> map day_index plans = ds
         \<and> map day_date plans = map (\<lambda>d. start_date trip + (d - 1)) ds"
  using assms by (induction rule: day_loop_induct) simp_all

lemma day_loop_concat:
  assumes "day_loop trip ranked ds ([], cur) = Inr (plans, cur')"
  shows "cur \<le> cur' \<and> (cur' = cur \<or> cur' \<le> length ranked)
         \<and> concat (map places plans) = take (cur' - cur) (drop cur ranked)"
  using assms
proof (induction rule: day_loop_induct)
  case (Nil cur)
  show ?case by simp
next
  case (Cons d ds cur n rest cur')
  have e: "cur' - cur = n + (cur' - (cur + n))"
    using Cons.IH by simp
  have "take (cur' - cur) (drop cur ranked)
        = take n (drop cur ranked) @ take (cur' - (cur + n)) (drop (cur + n) ranked)"
    by (subst e) (simp only: take_add drop_drop add.commute)
  moreover have "cur' = cur \<or> cur' \<le> length ranked"
    using Cons.IH Cons.hyps(2) by auto
  ultimately show ?case
    using Cons.IH by simp
qed

lemma day_loop_cost:
  assumes "day_loop trip ranked ds ([], cur) = Inr (plans, cur')"
  shows "\<forall>pl\<in>set plans.
           total_cost pl = py_round (40 * real_of_int (group_size trip)
                      + (\<Sum>p\<leftarrow>places pl. estimated_cost p * real_of_int (group_size trip))
                      + 15 * real_of_int (group_size trip)) 2
           \<and> 0 \<le> total_cost pl \<and> set (places pl) \<subseteq> set ranked
           \<and> day_notes pl = Some (''Includes meals (~$''
                           @ str_int (40 * group_size trip)
                           @ '') and transport (~$''
                           @ str_int (15 * group_size trip) @ '')'')"
  using assms
proof (induction rule: day_loop_induct)
  case (Nil cur)
  show ?case by simp
next
  case (Cons d ds cur n rest cur')
  have "set (take n (drop cur ranked)) \<subseteq> set ranked"
    by (meson in_set_dropD in_set_takeD subsetI)
  then show ?case
    using Cons.IH Cons.hyps(3) by auto
qed

lemma day_loop_days:
  assumes "day_loop trip ranked ds ([], cur) = Inr (plans, cur')"
  shows "\<forall>i<length plans.
           places (plans ! i)
             = take (length (places (plans ! i)))
                 (drop (cur + length (concat (map places (take i plans)))) ranked)
           \<and> (\<forall>k<length (places (plans ! i)).
                 k < target_places_per_day trip
                 \<and> cur + length (concat (map places (take i plans))) + k < length ranked
                 \<and> 40 * real_of_int (group_size trip)
                     + (\<Sum>p\<leftarrow>take (Suc k)
                              (drop (cur + length (concat (map places (take i plans)))) ranked).
                           estimated_cost p * real_of_int (group_size trip))
                     \<le> daily_budget trip * 1.2)
           \<and> \<not> (length (places (plans ! i)) < target_places_per_day trip
                 \<and> cur + length (concat (map places (take i plans)))
                       + length (places (plans ! i)) < length ranked
                 \<and> 40 * real_of_int (group_size trip)
                     + (\<Sum>p\<leftarrow>take (Suc (length (places (plans ! i))))
                              (drop (cur + length (concat (map places (take i plans)))) ranked).
                           estimated_cost p * real_of_int (group_size trip))
                     \<le> daily_budget trip * 1.2)"
  using assms
proof (induction rule: day_loop_induct)
  case (Nil cur)
  show ?case by simp
next
  case (Cons d ds cur n rest cur')
  have len: "length (take n (drop cur ranked)) = n"
    using Cons.hyps(2) by auto
  show ?case
  proof (intro allI impI, goal_cases)
    case (1 i)
    then have i: "i < Suc (length rest)" by simp
    show ?case
    proof (cases i)
      case 0
      show ?thesis
        unfolding 0 using Cons.hyps(4,5) by (simp add: len del: length_take)
    next
      case (Suc j)
      then have "j < length rest" using i by simp
      from Cons.IH [rule_format, OF this] show ?thesis
        unfolding Suc by (simp add: len add.assoc del: length_take)
    qed
  qed
qed


section \<open>The example inputs, evaluated\<close>

lemmas demo_defs = demo_trip_def demo_museum_def demo_park_def demo_garden_def demo_gallery_def

lemma demo_valid:
  "valid_TripRequest demo_trip"
  "\<forall>p\<in>set [demo_museum, demo_gallery, demo_park, demo_garden]. valid_Place p"
  by (simp_all add: demo_defs valid_TripRequest_def valid_Place_def allowed_def)

lemma demo_ranked:
  "ranked_places demo_trip [demo_park, demo_gallery, demo_garden, demo_museum] (0, 0)
     = [demo_museum, demo_gallery, demo_park, demo_garden]"
  by (simp add: ranked_places_def sort_by_score_reverse_def simple_score_def demo_defs
        lower_def lower_char_def daily_budget_def num_days_def)

lemma demo_daily_plans:
  "daily_plans demo_trip [demo_museum, demo_gallery, demo_park, demo_garden] =
     Inr [\<lparr> day_index = 1, day_date = 739000, places = [demo_museum, demo_gallery],
             total_cost = 100,
             day_notes = Some ''Includes meals (~$40) and transport (~$15)'' \<rparr>,
          \<lparr> day_index = 2, day_date = 739001, places = [demo_park, demo_garden],
             total_cost = 55,
             day_notes = Some ''Includes meals (~$40) and transport (~$15)'' \<rparr>]"
  by (simp add: daily_plans_def day_loop.simps add_places.simps DayPlan_init_def
        target_places_per_day_def pace_map_def daily_budget_def num_days_def
        py_round_def round_half_even_def str_int_def digits_of.simps demo_defs upto.simps)


section \<open>Properties of the allocation\<close>

lemma daily_plans_Inr:
  "daily_plans trip ranked = Inr plans \<longleftrightarrow>
     (\<exists>c. day_loop trip ranked [1 .. num_days trip] ([], 0) = Inr (plans, c))"
  by (auto simp: daily_plans_def split: sum.splits)

lemma valid_Place_cost: "\<forall>p\<in>set ps. valid_Place p \<Longrightarrow> \<forall>p\<in>set ps. 0 \<le> estimated_cost p"
  by (simp add: valid_Place_def)

lemma daily_plans_returns:
  assumes "0 \<le> group_size trip" and "\<forall>p\<in>set ranked. valid_Place p"
  shows "\<exists>plans. daily_plans trip ranked = Inr plans"
proof -
  have "\<forall>d\<in>set [1 .. num_days trip]. 1 \<le> d" by simp
  from day_loop_returns [OF this assms(1) valid_Place_cost [OF assms(2)]]
  show ?thesis by (simp add: daily_plans_Inr)
qed

lemma daily_plans_empty: "num_days trip \<le> 0 \<Longrightarrow> daily_plans trip ranked = Inr []"
  by (simp add: daily_plans_def)

lemma create_itinerary_simple_Inr:
  "create_itinerary_simple trip ps cc = Inr it \<longleftrightarrow>
     (\<exists>plans. daily_plans trip (ranked_places trip ps cc) = Inr plans
        \<and> 0 \<le> py_round (sum_list (map total_cost plans)) 2
        \<and> it = \<lparr> trip_request = trip, days = plans,
                  trip_total_cost = py_round (sum_list (map total_cost plans)) 2,
                  trip_notes = Some (''Itinerary created for '' @ str_int (num_days trip)
                      @ '' days with '' @ pace trip @ '' pace. Total cost is ''
                      @ (if sum_list (map total_cost plans) \<le> budget trip
                         then ''within budget'' else ''slightly over budget'') @ ''.'') \<rparr>)"
  unfolding create_itinerary_simple_def Itinerary_init_def Let_def
  by (cases "daily_plans trip (ranked_places trip ps cc)") auto

lemma daily_plans_struct:
  assumes "daily_plans trip ranked = Inr plans"
  shows "length plans = nat (num_days trip)"
    and "i < length plans \<Longrightarrow> day_index (plans ! i) = int i + 1"
    and "i < length plans \<Longrightarrow> day_date (plans ! i) = start_date trip + (day_index (plans ! i) - 1)"
proof -
  from assms obtain c where
    run: "day_loop trip ranked [1 .. num_days trip] ([], 0) = Inr (plans, c)"
    by (auto simp: daily_plans_Inr)
  note s = day_loop_struct [OF run]
  from s show len: "length plans = nat (num_days trip)" by simp
  {
    assume i: "i < length plans"
    have "day_index (plans ! i) = map day_index plans ! i"
      using i by simp
    also have "\<dots> = [1 .. num_days trip] ! i"
      using s by simp
    also have "\<dots> = 1 + int i"
      using i len by (intro nth_upto) linarith
    finally show di: "day_index (plans ! i) = int i + 1" by simp
    have "day_date (plans ! i) = map day_date plans ! i"
      using i by simp
    also have "\<dots> = map (\<lambda>d. start_date trip + (d - 1)) (map day_index plans) ! i"
      using s by simp
    also have "\<dots> = start_date trip + (day_index (plans ! i) - 1)"
      using i by simp
    finally show "day_date (plans ! i) = start_date trip + (day_index (plans ! i) - 1)" .
  }
qed

lemma daily_plans_exhausted:
  assumes "daily_plans trip ranked = Inr plans" and "i < length plans"
    and "length ranked \<le> length (concat (map places (take i plans)))"
  shows "places (plans ! i) = []"
proof (rule ccontr)
  assume ne: "places (plans ! i) \<noteq> []"
  from assms(1) obtain c where
    run: "day_loop trip ranked [1 .. num_days trip] ([], 0) = Inr (plans, c)"
    by (auto simp: daily_plans_Inr)
  from day_loop_days [OF run, rule_format, OF assms(2)]
  have "\<forall>k<length (places (plans ! i)).
          0 + length (concat (map places (take i plans))) + k < length ranked"
    by blast
  then have "length (concat (map places (take i plans))) < length ranked"
    using ne by force
  then show False using assms(3) by simp
qed

text \<open>
  Claim C6. For a valid request and valid places the allocation returns, with exactly
  \<open>num_days\<close> day plans. Whenever it returns, the plans are numbered from 1 in
  steps of one, the date of each is the start date plus its day number minus one, and a
  day that starts when the ranked list is used up has no places. With \<open>num_days\<close>
  zero or negative the allocation returns no plan and the whole function returns an
  itinerary without days.
\<close>

theorem allocator_day_count:
  "(valid_TripRequest trip \<and> (\<forall>p\<in>set ranked. valid_Place p) \<longrightarrow>
      (\<exists>plans. daily_plans trip ranked = Inr plans \<and> int (length plans) = num_days trip))
   \<and> (daily_plans trip ranked = Inr plans \<longrightarrow>
        length plans = nat (num_days trip)
        \<and> (\<forall>i<length plans.
              day_index (plans ! i) = int i + 1
              \<and> day_date (plans ! i) = start_date trip + (day_index (plans ! i) - 1)
              \<and> (length ranked \<le> length (concat (map places (take i plans)))
                   \<longrightarrow> places (plans ! i) = [])))
   \<and> (num_days trip \<le> 0 \<longrightarrow>
        daily_plans trip ranked = Inr []
        \<and> (\<exists>it. create_itinerary_simple trip ps cc = Inr it \<and> days it = []))"
proof (intro conjI impI)
  assume v: "valid_TripRequest trip \<and> (\<forall>p\<in>set ranked. valid_Place p)"
  then have "0 \<le> group_size trip" and n: "0 < num_days trip"
    by (simp_all add: valid_TripRequest_def num_days_def)
  from daily_plans_returns [OF this(1)] v obtain plans where
    p: "daily_plans trip ranked = Inr plans" by blast
  from daily_plans_struct(1) [OF p] n have "int (length plans) = num_days trip"
    by simp
  with p show "\<exists>plans. daily_plans trip ranked = Inr plans \<and> int (length plans) = num_days trip"
    by blast
next
  assume p: "daily_plans trip ranked = Inr plans"
  show "length plans = nat (num_days trip)"
    by (rule daily_plans_struct(1) [OF p])
  show "\<forall>i<length plans.
          day_index (plans ! i) = int i + 1
          \<and> day_date (plans ! i) = start_date trip + (day_index (plans ! i) - 1)
          \<and> (length ranked \<le> length (concat (map places (take i plans)))
               \<longrightarrow> places (plans ! i) = [])"
    using daily_plans_struct(2,3) [OF p] daily_plans_exhausted [OF p] by blast
next
  assume n: "num_days trip \<le> 0"
  show "daily_plans trip ranked = Inr []"
    by (rule daily_plans_empty [OF n])
  have "py_round 0 2 = 0"
    using py_round_of_int [of 0] by simp
  then show "\<exists>it. create_itinerary_simple trip ps cc = Inr it \<and> days it = []"
    by (simp add: create_itinerary_simple_Inr daily_plans_empty [OF n])
qed

theorem allocator_day_count_witness:
  "valid_TripRequest demo_trip
   \<and> list_all valid_Place [demo_museum, demo_gallery, demo_park, demo_garden]
   \<and> (\<exists>plans. daily_plans demo_trip [demo_museum, demo_gallery, demo_park, demo_garden]
                 = Inr plans
        \<and> length plans = 2
        \<and> map day_index plans = [1, 2]
        \<and> map day_date plans = [739000, 739001])
   \<and> num_days (demo_trip\<lparr>end_date := 739000\<rparr>) \<le> 0
   \<and> daily_plans (demo_trip\<lparr>end_date := 739000\<rparr>) [demo_museum] = Inr []"
  using allocator_day_count
          [of demo_trip "[demo_museum, demo_gallery, demo_park, demo_garden]"
              "[\<lparr> day_index = 1, day_date = 739000, places = [demo_museum, demo_gallery],
                   total_cost = 100,
                   day_notes = Some ''Includes meals (~$40) and transport (~$15)'' \<rparr>,
                \<lparr> day_index = 2, day_date = 739001, places = [demo_park, demo_garden],
                   total_cost = 55,
                   day_notes = Some ''Includes meals (~$40) and transport (~$15)'' \<rparr>]"
              "[]" "(0, 0)"]
        allocator_day_count
          [of "demo_trip\<lparr>end_date := 739000\<rparr>" "[demo_museum]" "[]" "[]" "(0, 0)"]
        demo_valid
  by (simp add: demo_daily_plans) (simp add: num_days_def demo_trip_def)

text \<open>
  Claim C2. Whenever the allocation returns, the places of the day plans, taken in day
  order, are the first \<open>k\<close> elements of the ranked list for some \<open>k\<close>; each day holds
  the slice of the ranked list that starts where the days before it ended; and when
  the ranked list has no repeated element, no place occurs twice in the plans. For a
  valid request and valid places the allocation does return.
\<close>

theorem allocator_prefix:
  "(valid_TripRequest trip \<and> (\<forall>p\<in>set ranked. valid_Place p) \<longrightarrow>
      (\<exists>plans. daily_plans trip ranked = Inr plans))
   \<and> (daily_plans trip ranked = Inr plans \<longrightarrow>
        (\<exists>k\<le>length ranked. concat (map places plans) = take k ranked)
        \<and> (\<forall>i<length plans.
              places (plans ! i)
                = take (length (places (plans ! i)))
                    (drop (length (concat (map places (take i plans)))) ranked))
        \<and> (distinct ranked \<longrightarrow> distinct (concat (map places plans))))"
proof (intro conjI impI)
  assume v: "valid_TripRequest trip \<and> (\<forall>p\<in>set ranked. valid_Place p)"
  then have "0 \<le> group_size trip"
    by (simp add: valid_TripRequest_def)
  from daily_plans_returns [OF this] v
  show "\<exists>plans. daily_plans trip ranked = Inr plans" by blast
next
  assume p: "daily_plans trip ranked = Inr plans"
  then obtain c where
    run: "day_loop trip ranked [1 .. num_days trip] ([], 0) = Inr (plans, c)"
    by (auto simp: daily_plans_Inr)
  from day_loop_concat [OF run]
  have c: "c = 0 \<or> c \<le> length ranked" and eq: "concat (map places plans) = take c ranked"
    by simp_all
  show k: "\<exists>k\<le>length ranked. concat (map places plans) = take k ranked"
  proof (cases "c \<le> length ranked")
    case True
    with eq show ?thesis by blast
  next
    case False
    with c eq show ?thesis by auto
  qed
  show "\<forall>i<length plans.
          places (plans ! i)
            = take (length (places (plans ! i)))
                (drop (length (concat (map places (take i plans)))) ranked)"
    using day_loop_days [OF run] by simp
  {
    assume "distinct ranked"
    then show "distinct (concat (map places plans))"
      unfolding eq by (rule distinct_take)
  }
qed

theorem allocator_prefix_witness:
  "valid_TripRequest demo_trip
   \<and> list_all valid_Place [demo_museum, demo_gallery, demo_park, demo_garden]
   \<and> distinct [demo_museum, demo_gallery, demo_park, demo_garden]
   \<and> (\<exists>plans. daily_plans demo_trip [demo_museum, demo_gallery, demo_park, demo_garden]
                 = Inr plans
        \<and> concat (map places plans) = [demo_museum, demo_gallery, demo_park, demo_garden]
        \<and> distinct (concat (map places plans)))"
  using allocator_prefix
          [of demo_trip "[demo_museum, demo_gallery, demo_park, demo_garden]"
              "[\<lparr> day_index = 1, day_date = 739000, places = [demo_museum, demo_gallery],
                   total_cost = 100,
                   day_notes = Some ''Includes meals (~$40) and transport (~$15)'' \<rparr>,
                \<lparr> day_index = 2, day_date = 739001, places = [demo_park, demo_garden],
                   total_cost = 55,
                   day_notes = Some ''Includes meals (~$40) and transport (~$15)'' \<rparr>]"]
        demo_valid
  by (simp add: demo_daily_plans) (simp add: demo_defs)


section \<open>Properties of the ranking\<close>

lemma scored_pairs:
  "y \<in> set (sort_by_score_reverse (map (\<lambda>p. (p, sc p)) ps)) \<Longrightarrow> snd y = sc (fst y)"
  by (auto simp: sort_by_score_reverse_def)

lemma rank_mset:
  "mset (map fst (sort_by_score_reverse (map (\<lambda>p. (p, sc p)) ps))) = mset ps"
proof -
  have "map fst (map (\<lambda>p. (p, sc p)) ps) = ps"
    by (simp add: comp_def)
  moreover have "mset (map fst (sort_key f xs)) = mset (map fst xs)" for f :: "'a \<times> real \<Rightarrow> real" and xs
    by (metis mset_map mset_sort)
  ultimately show ?thesis
    unfolding sort_by_score_reverse_def by metis
qed

lemma rank_sorted:
  "sorted_wrt (\<lambda>a b. sc b \<le> sc a)
     (map fst (sort_by_score_reverse (map (\<lambda>p. (p, sc p)) ps)))"
proof -
  let ?ys = "sort_by_score_reverse (map (\<lambda>p. (p, sc p)) ps)"
  have "sorted (map (\<lambda>x. - snd x) ?ys)"
    by (simp add: sort_by_score_reverse_def)
  moreover have "map (\<lambda>x. - snd x) ?ys = map (\<lambda>p. - sc p) (map fst ?ys)"
    by (simp add: scored_pairs)
  ultimately have "sorted (map (\<lambda>p. - sc p) (map fst ?ys))"
    by simp
  then show ?thesis
    by (simp add: sorted_map sorted_wrt_map)
qed

lemma rank_stable:
  "filter (\<lambda>p. sc p = s) (map fst (sort_by_score_reverse (map (\<lambda>p. (p, sc p)) ps)))
     = filter (\<lambda>p. sc p = s) ps"
proof -
  let ?xs = "map (\<lambda>p. (p, sc p)) ps"
  let ?ys = "sort_by_score_reverse ?xs"
  have "filter (\<lambda>p. sc p = s) (map fst ?ys) = map fst (filter (\<lambda>y. sc (fst y) = s) ?ys)"
    by (simp add: filter_map comp_def)
  also have "filter (\<lambda>y. sc (fst y) = s) ?ys = filter (\<lambda>y. - snd y = - s) ?ys"
    by (rule filter_cong) (simp_all add: scored_pairs)
  also have "\<dots> = filter (\<lambda>y. - snd y = - s) ?xs"
    unfolding sort_by_score_reverse_def by (rule sort_key_stable)
  also have "map fst \<dots> = filter (\<lambda>p. sc p = s) ps"
    by (simp add: filter_map comp_def)
  finally show ?thesis .
qed

lemma sorted_wrt_adjacent:
  "sorted_wrt R xs \<Longrightarrow> Suc i < length xs \<Longrightarrow> R (xs ! i) (xs ! Suc i)"
  by (simp add: sorted_wrt_iff_nth_less)

text \<open>
  Claim C5. The ranking of \<^verbatim>\<open>create_itinerary_simple\<close> returns a permutation of the
  places it is given: the same multiset, hence the same length and the same elements,
  and the empty list for the empty list. The same holds for the ranking tool
  \<^verbatim>\<open>rank_places_by_relevance\<close>.
\<close>

theorem ranker_permutation:
  "mset (ranked_places trip ps cc) = mset ps
   \<and> length (ranked_places trip ps cc) = length ps
   \<and> set (ranked_places trip ps cc) = set ps
   \<and> ranked_places trip [] cc = []
   \<and> mset (rank_places_by_relevance trip ps cc) = mset ps
   \<and> length (rank_places_by_relevance trip ps cc) = length ps
   \<and> rank_places_by_relevance trip [] cc = []"
proof -
  have a: "mset (ranked_places trip ps cc) = mset ps" for ps
    unfolding ranked_places_def Let_def by (rule rank_mset)
  have b: "mset (rank_places_by_relevance trip ps cc) = mset ps" for ps
    unfolding rank_places_by_relevance_def Let_def by (rule rank_mset)
  have c: "ranked_places trip [] cc = []"
    using a [of "[]"] by simp
  have d: "rank_places_by_relevance trip [] cc = []"
    using b [of "[]"] by simp
  show ?thesis
    using a [of ps] b [of ps] c d
      mset_eq_length [OF a [of ps]] mset_eq_length [OF b [of ps]] mset_eq_setD [OF a [of ps]]
    by simp
qed

theorem ranker_permutation_witness:
  "mset [demo_museum, demo_gallery, demo_park, demo_garden]
     = mset [demo_park, demo_gallery, demo_garden, demo_museum]
   \<and> length (ranked_places demo_trip [demo_park, demo_gallery, demo_garden, demo_museum] (0, 0))
       = 4"
  using ranker_permutation
          [of demo_trip "[demo_park, demo_gallery, demo_garden, demo_museum]" "(0, 0)"]
  by (simp add: demo_ranked)

text \<open>
  Claim C4. The ranking of \<^verbatim>\<open>create_itinerary_simple\<close> is in non-increasing order of
  score: every element scores at least as much as each later one, in particular as
  its successor. It is stable: for every score value, the places with that score
  come out in the order in which they came in. The same holds for the ranking tool
  with its own score.
\<close>

theorem ranker_sorted_stable:
  "sorted_wrt (\<lambda>a b. simple_score trip cc b \<le> simple_score trip cc a)
     (ranked_places trip ps cc)
   \<and> (\<forall>i. Suc i < length (ranked_places trip ps cc) \<longrightarrow>
          simple_score trip cc (ranked_places trip ps cc ! Suc i)
            \<le> simple_score trip cc (ranked_places trip ps cc ! i))
   \<and> (\<forall>s. filter (\<lambda>p. simple_score trip cc p = s) (ranked_places trip ps cc)
            = filter (\<lambda>p. simple_score trip cc p = s) ps)
   \<and> sorted_wrt (\<lambda>a b. relevance_score trip cc b \<le> relevance_score trip cc a)
       (rank_places_by_relevance trip ps cc)
   \<and> (\<forall>i. Suc i < length (rank_places_by_relevance trip ps cc) \<longrightarrow>
          relevance_score trip cc (rank_places_by_relevance trip ps cc ! Suc i)
            \<le> relevance_score trip cc (rank_places_by_relevance trip ps cc ! i))
   \<and> (\<forall>s. filter (\<lambda>p. relevance_score trip cc p = s) (rank_places_by_relevance trip ps cc)
            = filter (\<lambda>p. relevance_score trip cc p = s) ps)"
proof -
  have a: "sorted_wrt (\<lambda>a b. simple_score trip cc b \<le> simple_score trip cc a)
             (ranked_places trip ps cc)"
    unfolding ranked_places_def Let_def by (rule rank_sorted)
  have b: "sorted_wrt (\<lambda>a b. relevance_score trip cc b \<le> relevance_score trip cc a)
             (rank_places_by_relevance trip ps cc)"
    unfolding rank_places_by_relevance_def Let_def by (rule rank_sorted)
  have c: "filter (\<lambda>p. simple_score trip cc p = s) (ranked_places trip ps cc)
             = filter (\<lambda>p. simple_score trip cc p = s) ps" for s
    unfolding ranked_places_def Let_def by (rule rank_stable)
  have d: "filter (\<lambda>p. relevance_score trip cc p = s) (rank_places_by_relevance trip ps cc)
             = filter (\<lambda>p. relevance_score trip cc p = s) ps" for s
    unfolding rank_places_by_relevance_def Let_def by (rule rank_stable)
  show ?thesis
  proof (intro conjI allI impI)
    show "sorted_wrt (\<lambda>a b. simple_score trip cc b \<le> simple_score trip cc a)
            (ranked_places trip ps cc)"
      by (rule a)
    show "sorted_wrt (\<lambda>a b. relevance_score trip cc b \<le> relevance_score trip cc a)
            (rank_places_by_relevance trip ps cc)"
      by (rule b)
  qed (rule c d sorted_wrt_adjacent [OF a] sorted_wrt_adjacent [OF b]; assumption?)+
qed

lemma demo_scores:
  "simple_score demo_trip (0, 0) demo_museum = 12"
  "simple_score demo_trip (0, 0) demo_gallery = 11"
  "simple_score demo_trip (0, 0) demo_park = 7"
  "simple_score demo_trip (0, 0) demo_garden = 7"
  by (simp_all add: simple_score_def demo_defs lower_def lower_char_def daily_budget_def
        num_days_def)

theorem ranker_sorted_stable_witness:
  "Suc 2 < length (ranked_places demo_trip
                     [demo_park, demo_gallery, demo_garden, demo_museum] (0, 0))
   \<and> simple_score demo_trip (0, 0) demo_garden \<le> simple_score demo_trip (0, 0) demo_park
   \<and> simple_score demo_trip (0, 0) demo_garden = simple_score demo_trip (0, 0) demo_park
   \<and> filter (\<lambda>p. simple_score demo_trip (0, 0) p = 7)
        (ranked_places demo_trip [demo_park, demo_gallery, demo_garden, demo_museum] (0, 0))
       = [demo_park, demo_garden]"
  using ranker_sorted_stable
          [of demo_trip "(0, 0)" "[demo_park, demo_gallery, demo_garden, demo_museum]"]
  by (simp add: demo_ranked demo_scores)


section \<open>Costs\<close>

lemma daily_plans_cost:
  assumes "daily_plans trip ranked = Inr plans" and "pl \<in> set plans"
  shows "total_cost pl = py_round (40 * real_of_int (group_size trip)
                      + (\<Sum>p\<leftarrow>places pl. estimated_cost p * real_of_int (group_size trip))
                      + 15 * real_of_int (group_size trip)) 2"
    and "0 \<le> total_cost pl"
    and "set (places pl) \<subseteq> set ranked"
    and "day_notes pl = Some (''Includes meals (~$''
                           @ str_int (40 * group_size trip)
                           @ '') and transport (~$''
                           @ str_int (15 * group_size trip) @ '')'')"
proof -
  from assms(1) obtain c where
    run: "day_loop trip ranked [1 .. num_days trip] ([], 0) = Inr (plans, c)"
    by (auto simp: daily_plans_Inr)
  note c = day_loop_cost [OF run, rule_format, OF assms(2)]
  from c show "total_cost pl = py_round (40 * real_of_int (group_size trip)
                      + (\<Sum>p\<leftarrow>places pl. estimated_cost p * real_of_int (group_size trip))
                      + 15 * real_of_int (group_size trip)) 2"
    by (rule conjunct1)
  from c show "0 \<le> total_cost pl" by blast
  from c show "set (places pl) \<subseteq> set ranked" by blast
  from c show "day_notes pl = Some (''Includes meals (~$''
                           @ str_int (40 * group_size trip)
                           @ '') and transport (~$''
                           @ str_int (15 * group_size trip) @ '')'')"
    by blast
qed

lemma day_total_floor:
  assumes "0 \<le> group_size trip" and "\<forall>p\<in>set ranked. valid_Place p"
    and "daily_plans trip ranked = Inr plans" and "pl \<in> set plans"
  shows "55 * real_of_int (group_size trip) \<le> total_cost pl"
proof -
  let ?g = "real_of_int (group_size trip)"
  have g: "0 \<le> ?g" using assms(1) by simp
  have "0 \<le> (\<Sum>p\<leftarrow>places pl. estimated_cost p * ?g)"
  proof (rule sum_list_nonneg)
    fix x
    assume "x \<in> set (map (\<lambda>p. estimated_cost p * ?g) (places pl))"
    then obtain p where "p \<in> set (places pl)" "x = estimated_cost p * ?g"
      by auto
    moreover from this(1) have "0 \<le> estimated_cost p"
      using daily_plans_cost(3) [OF assms(3,4)] valid_Place_cost [OF assms(2)] by blast
    ultimately show "0 \<le> x"
      using g by simp
  qed
  then have "real_of_int (55 * group_size trip)
             \<le> 40 * ?g + (\<Sum>p\<leftarrow>places pl. estimated_cost p * ?g) + 15 * ?g"
    by simp
  then have "py_round (real_of_int (55 * group_size trip)) 2 \<le> total_cost pl"
    unfolding daily_plans_cost(1) [OF assms(3,4)] by (rule py_round_mono)
  then show ?thesis
    unfolding py_round_of_int by simp
qed

lemma demo_daily_plans_short:
  "daily_plans demo_trip [demo_museum] =
     Inr [\<lparr> day_index = 1, day_date = 739000, places = [demo_museum],
             total_cost = 70,
             day_notes = Some ''Includes meals (~$40) and transport (~$15)'' \<rparr>,
          \<lparr> day_index = 2, day_date = 739001, places = [],
             total_cost = 55,
             day_notes = Some ''Includes meals (~$40) and transport (~$15)'' \<rparr>]"
  by (simp add: daily_plans_def day_loop.simps add_places.simps DayPlan_init_def
        target_places_per_day_def pace_map_def daily_budget_def num_days_def
        py_round_def round_half_even_def str_int_def digits_of.simps demo_defs upto.simps)

text \<open>
  Claim C9. For a valid request and valid places, every day plan that the allocation
  returns costs at least 55 times the group size, the meal and the transport
  allowance, and so more than zero; also a day without places.
\<close>

theorem day_cost_floor:
  assumes "valid_TripRequest trip" and "\<forall>p\<in>set ranked. valid_Place p"
    and "daily_plans trip ranked = Inr plans" and "pl \<in> set plans"
  shows "55 * real_of_int (group_size trip) \<le> total_cost pl \<and> 0 < total_cost pl
         \<and> total_cost pl \<noteq> 0"
proof -
  from assms(1) have g: "0 < group_size trip"
    by (simp add: valid_TripRequest_def)
  then have "0 \<le> group_size trip" by simp
  from day_total_floor [OF this assms(2,3,4)]
  have "55 * real_of_int (group_size trip) \<le> total_cost pl" .
  moreover have "0 < 55 * real_of_int (group_size trip)"
    using g by simp
  ultimately show ?thesis by linarith
qed

theorem day_cost_floor_witness:
  "valid_TripRequest demo_trip \<and> valid_Place demo_museum
   \<and> daily_plans demo_trip [demo_museum] =
       Inr [\<lparr> day_index = 1, day_date = 739000, places = [demo_museum],
               total_cost = 70,
               day_notes = Some ''Includes meals (~$40) and transport (~$15)'' \<rparr>,
            \<lparr> day_index = 2, day_date = 739001, places = [],
               total_cost = 55,
               day_notes = Some ''Includes meals (~$40) and transport (~$15)'' \<rparr>]
   \<and> 55 * real_of_int (group_size demo_trip)
       \<le> total_cost \<lparr> day_index = 2, day_date = 739001, places = [],
               total_cost = 55,
               day_notes = Some ''Includes meals (~$40) and transport (~$15)'' \<rparr>"
  using day_cost_floor
          [of demo_trip "[demo_museum]"
              "[\<lparr> day_index = 1, day_date = 739000, places = [demo_museum],
                   total_cost = 70,
                   day_notes = Some ''Includes meals (~$40) and transport (~$15)'' \<rparr>,
                \<lparr> day_index = 2, day_date = 739001, places = [],
                   total_cost = 55,
                   day_notes = Some ''Includes meals (~$40) and transport (~$15)'' \<rparr>]"
              "\<lparr> day_index = 2, day_date = 739001, places = [],
                   total_cost = 55,
                   day_notes = Some ''Includes meals (~$40) and transport (~$15)'' \<rparr>"]
        demo_valid
  by (simp add: demo_daily_plans_short)

lemma trip_total_hundredths:
  assumes "daily_plans trip ranked = Inr plans"
  shows "py_round (sum_list (map total_cost plans)) 2 = sum_list (map total_cost plans)"
    and "0 \<le> sum_list (map total_cost plans)"
proof -
  have "\<forall>x\<in>set (map total_cost plans). \<exists>k. x = real_of_int k / 100"
  proof
    fix x
    assume "x \<in> set (map total_cost plans)"
    then obtain pl where "pl \<in> set plans" "x = total_cost pl" by auto
    then show "\<exists>k. x = real_of_int k / 100"
      using daily_plans_cost(1) [OF assms] py_round_is_hundredth by metis
  qed
  from sum_list_hundredths [OF this] obtain k where
    "sum_list (map total_cost plans) = real_of_int k / 100" by blast
  then show "py_round (sum_list (map total_cost plans)) 2 = sum_list (map total_cost plans)"
    by (simp only: py_round_hundredths)
  show "0 \<le> sum_list (map total_cost plans)"
  proof (rule sum_list_nonneg)
    fix x
    assume "x \<in> set (map total_cost plans)"
    then obtain pl where "pl \<in> set plans" "x = total_cost pl" by auto
    then show "0 \<le> x"
      using daily_plans_cost(2) [OF assms] by simp
  qed
qed

lemma create_itinerary_simple_returns:
  assumes "valid_TripRequest trip" and "\<forall>p\<in>set ps. valid_Place p"
  shows "\<exists>it. create_itinerary_simple trip ps cc = Inr it"
proof -
  have "mset (ranked_places trip ps cc) = mset ps"
    unfolding ranked_places_def Let_def by (rule rank_mset)
  then have "set (ranked_places trip ps cc) = set ps"
    by (rule mset_eq_setD)
  then have v: "\<forall>p\<in>set (ranked_places trip ps cc). valid_Place p"
    using assms(2) by simp
  have "0 \<le> group_size trip"
    using assms(1) by (simp add: valid_TripRequest_def)
  from daily_plans_returns [OF this v] obtain plans where
    p: "daily_plans trip (ranked_places trip ps cc) = Inr plans" by blast
  have "0 \<le> py_round (sum_list (map total_cost plans)) 2"
    using trip_total_hundredths [OF p] by simp
  then show ?thesis
    unfolding create_itinerary_simple_Inr using p by blast
qed


section \<open>Validation errors\<close>

lemma TripRequest_init_Inl:
  "TripRequest_init c s e b i p g = Inl err \<longleftrightarrow>
     (err = ValidationError \<and>
      (e \<le> s \<or> b \<le> 0 \<or> (\<exists>n. g = Some n \<and> n \<le> 0)
       \<or> (\<exists>v. p = Some v \<and> lower v \<notin> set allowed)))"
  by (cases p; cases g)
     (auto simp: TripRequest_init_def validate_dates_def validate_pace_def Let_def
           split: if_splits)

lemma TripRequest_init_valid:
  "TripRequest_init c s e b i p g = Inr r \<Longrightarrow> valid_TripRequest r"
  by (cases p; cases g)
     (auto simp: TripRequest_init_Inr valid_TripRequest_def allowed_def)

text \<open>
  Claim C8, as amended. Construction of a request raises \<^verbatim>\<open>ValidationError\<close>, and no
  other error, exactly when the end date is not after the start date, the budget is
  not positive, a given group size is not positive, or the lowercase form of a given
  pace is not one of the three allowed words. A constructed request is valid, and for
  a valid request and valid places \<^verbatim>\<open>create_itinerary_simple\<close>, ranking and allocation
  together, returns an itinerary and raises nothing.
\<close>

theorem TripRequest_validation:
  "(TripRequest_init c s e b i p g = Inl ValidationError \<longleftrightarrow>
      (e \<le> s \<or> b \<le> 0 \<or> (\<exists>n. g = Some n \<and> n \<le> 0)
       \<or> (\<exists>v. p = Some v \<and> lower v \<notin> set allowed)))
   \<and> TripRequest_init c s e b i p g \<noteq> Inl ValueError
   \<and> (TripRequest_init c s e b i p g = Inr r \<longrightarrow> valid_TripRequest r)
   \<and> (valid_TripRequest r \<and> (\<forall>q\<in>set ps. valid_Place q) \<longrightarrow>
        (\<exists>it. create_itinerary_simple r ps cc = Inr it))"
  using TripRequest_init_Inl [of c s e b i p g ValidationError]
        TripRequest_init_Inl [of c s e b i p g ValueError]
        TripRequest_init_valid [of c s e b i p g r]
        create_itinerary_simple_returns [of r ps cc]
  by simp

theorem TripRequest_validation_witness:
  "TripRequest_init ''Rome'' 739000 739002 200 (Some [''Museum'']) (Some ''Relaxed'') (Some 1)
     = Inr demo_trip
   \<and> valid_TripRequest demo_trip
   \<and> list_all valid_Place [demo_park, demo_gallery, demo_garden, demo_museum]
   \<and> (\<exists>it. create_itinerary_simple demo_trip
               [demo_park, demo_gallery, demo_garden, demo_museum] (0, 0) = Inr it)
   \<and> TripRequest_init ''Rome'' 739000 739002 200 None (Some ''brisk'') None
       = Inl ValidationError
   \<and> TripRequest_init ''Rome'' 739002 739002 200 None None None = Inl ValidationError
   \<and> TripRequest_init ''Rome'' 739000 739002 0 None None None = Inl ValidationError
   \<and> TripRequest_init ''Rome'' 739000 739002 200 None None (Some 0) = Inl ValidationError"
  using TripRequest_validation
          [of "''Rome''" 739000 739002 200 "Some [''Museum'']" "Some ''Relaxed''" "Some 1"
              demo_trip "[demo_park, demo_gallery, demo_garden, demo_museum]" "(0, 0)"]
        TripRequest_validation
          [of "''Rome''" 739000 739002 200 None "Some ''brisk''" None]
        TripRequest_validation [of "''Rome''" 739002 739002 200 None None None]
        TripRequest_validation [of "''Rome''" 739000 739002 0 None None None]
        TripRequest_validation [of "''Rome''" 739000 739002 200 None None "Some 0"]
        demo_valid
  by (simp add: TripRequest_init_Inr lower_def lower_char_def allowed_def demo_trip_def)

theorem TripRequest_pace_counterexample:
  "''PACKED'' \<notin> set allowed
   \<and> TripRequest_init ''Rome'' 739000 739002 200 None (Some ''PACKED'') None
       = Inr \<lparr> city = ''Rome'', start_date = 739000, end_date = 739002, budget = 200,
                interests = [], pace = ''packed'', group_size = 1 \<rparr>
   \<and> TripRequest_init ''Rome'' 739000 739002 200 None (Some ''PACKED'') None
       \<noteq> Inl ValidationError"
  by (simp add: TripRequest_init_Inr TripRequest_init_Inl lower_def lower_char_def allowed_def)


section \<open>The proximity score\<close>

lemma interest_match_count:
  "interest_match ins p s =
     s + 5 * real (length (filter (\<lambda>i. str_in (lower i) (lower (category p))
                                        \<or> str_in (lower i) (lower (name p))) ins))"
  by (induction ins arbitrary: s) auto

lemma relevance_score_parts:
  "relevance_score trip (clat, clon) p =
     5 * real (length (filter (\<lambda>i. str_in (lower i) (lower (category p))
                                    \<or> str_in (lower i) (lower (name p))) (interests trip)))
     + max 0 (5 - calculate_distance clat clon (latitude p) (longitude p) / 2)
     + (case rating p of None \<Rightarrow> 0 | Some r \<Rightarrow> r)
     + (if estimated_cost p < daily_budget trip / 3 then 2 else 0)"
  by (simp add: relevance_score_def Let_def interest_match_count split: option.splits)

lemma simple_score_parts:
  "simple_score trip (clat, clon) p =
     5 * real (length (filter (\<lambda>i. str_in (lower i) (lower (category p))
                                    \<or> str_in (lower i) (lower (name p))) (interests trip)))
     + max 0 (5 - sqrt ((latitude p - clat)\<^sup>2 + (longitude p - clon)\<^sup>2) * 100)
     + (case rating p of None \<Rightarrow> 0 | Some r \<Rightarrow> r)
     + (if estimated_cost p < daily_budget trip / 3 then 2 else 0)"
  by (simp add: simple_score_def Let_def interest_match_count split: option.splits)

lemma calculate_distance_north:
  assumes "0 \<le> x" and "x \<le> 180"
  shows "calculate_distance 0 0 x 0 = 6371 * (x * pi / 180)"
proof -
  let ?h = "x * pi / 180 / 2"
  have h: "0 \<le> ?h" "?h \<le> pi / 2"
    using assms pi_gt_zero by (simp_all add: mult_left_le_one_le)
  have "sqrt ((sin ?h)\<^sup>2) = sin ?h"
    using h pi_gt_zero by (simp add: sin_ge_zero)
  moreover have "arcsin (sin ?h) = ?h"
    using h by (intro arcsin_sin) linarith+
  ultimately have "2 * arcsin (sqrt ((sin ?h)\<^sup>2)) = x * pi / 180"
    by simp
  then show ?thesis
    by (simp add: calculate_distance_def radians_def Let_def)
qed

lemma demo_far_distance:
  "calculate_distance 0 0 (latitude demo_far) (longitude demo_far) = 6371 * pi / 3000"
  using calculate_distance_north [of "3 / 50"] by (simp add: demo_far_def)

lemma demo_far_score: "simple_score demo_trip (0, 0) demo_far = 0"
proof -
  have "sqrt ((3 / 50)\<^sup>2) = (3 / 50 :: real)"
    by simp
  then show ?thesis
    by (simp add: simple_score_def demo_far_def demo_trip_def lower_def lower_char_def
          daily_budget_def num_days_def)
qed

text \<open>
  \<^verbatim>\<open>math.sqrt\<close> raises on a negative argument and \<^verbatim>\<open>math.asin\<close> on one outside
  \<open>[-1, 1]\<close>. The haversine term lies between 0 and 1 for all coordinates, so
  over the reals neither raises and \<^verbatim>\<open>calculate_distance\<close> is total.
\<close>

lemma haversine_argument_range:
  fixes a b l :: real
  defines "A \<equiv> (sin ((b - a) / 2))\<^sup>2 + cos a * cos b * (sin (l / 2))\<^sup>2"
  shows "0 \<le> A" and "A \<le> 1"
proof -
  define h where "h = (sin (l / 2))\<^sup>2"
  define A0 where "A0 = (1 - cos (b - a)) / 2"
  define A1 where "A1 = (1 + cos (a + b)) / 2"
  have h: "0 \<le> h" "h \<le> 1"
    unfolding h_def by (simp_all add: abs_square_le_1 abs_sin_le_one)
  have "2 * ((b - a) / 2) = b - a"
    by simp
  then have "cos (b - a) = 1 - 2 * (sin ((b - a) / 2))\<^sup>2"
    using cos_double_sin [of "(b - a) / 2"] by (simp only:)
  then have s: "(sin ((b - a) / 2))\<^sup>2 = A0"
    unfolding A0_def by simp
  have A: "A = (1 - h) * A0 + h * A1"
    unfolding A_def s h_def [symmetric] unfolding A0_def A1_def
    by (simp add: cos_diff cos_add field_simps)
  have A0: "0 \<le> A0" "A0 \<le> 1"
    unfolding A0_def using cos_le_one [of "b - a"] cos_ge_minus_one [of "b - a"] by simp_all
  have A1: "0 \<le> A1" "A1 \<le> 1"
    unfolding A1_def using cos_le_one [of "a + b"] cos_ge_minus_one [of "a + b"]
    by (simp_all, linarith)
  show "0 \<le> A"
    unfolding A using h A0 A1 by simp
  have "(1 - h) * A0 \<le> (1 - h) * 1"
    by (rule mult_left_mono) (use h A0 in simp_all)
  moreover have "h * A1 \<le> h * 1"
    by (rule mult_left_mono) (use h A1 in simp_all)
  ultimately show "A \<le> 1"
    unfolding A by simp
qed

text \<open>
  Claim C1, as amended. The score of the ranking tool \<^verbatim>\<open>rank_places_by_relevance\<close> is
  the sum of 5 for each matching interest, the proximity score \<open>max 0 (5 - d / 2)\<close> for
  the haversine distance \<open>d\<close> in kilometres from the city centre (Earth radius 6371),
  the rating if present, and 2 for a cost below a third of the daily budget; so a place
  10 km or more from the centre has proximity score 0. The score inside
  \<^verbatim>\<open>create_itinerary_simple\<close> has the same parts, with the proximity score
  \<open>max 0 (5 - 100 * e)\<close> for the Euclidean distance \<open>e\<close> of the coordinates in
  degrees; so a place 0.05 degrees or more from the centre has proximity score 0.
\<close>

theorem proximity_score:
  "relevance_score trip (clat, clon) p =
     5 * real (length (filter (\<lambda>i. str_in (lower i) (lower (category p))
                                    \<or> str_in (lower i) (lower (name p))) (interests trip)))
     + max 0 (5 - calculate_distance clat clon (latitude p) (longitude p) / 2)
     + (case rating p of None \<Rightarrow> 0 | Some r \<Rightarrow> r)
     + (if estimated_cost p < daily_budget trip / 3 then 2 else 0)
   \<and> (10 \<le> calculate_distance clat clon (latitude p) (longitude p) \<longrightarrow>
        max 0 (5 - calculate_distance clat clon (latitude p) (longitude p) / 2) = 0)
   \<and> simple_score trip (clat, clon) p =
       5 * real (length (filter (\<lambda>i. str_in (lower i) (lower (category p))
                                      \<or> str_in (lower i) (lower (name p))) (interests trip)))
       + max 0 (5 - sqrt ((latitude p - clat)\<^sup>2 + (longitude p - clon)\<^sup>2) * 100)
       + (case rating p of None \<Rightarrow> 0 | Some r \<Rightarrow> r)
       + (if estimated_cost p < daily_budget trip / 3 then 2 else 0)
   \<and> (1 / 20 \<le> sqrt ((latitude p - clat)\<^sup>2 + (longitude p - clon)\<^sup>2) \<longrightarrow>
        max 0 (5 - sqrt ((latitude p - clat)\<^sup>2 + (longitude p - clon)\<^sup>2) * 100) = 0)"
proof (intro conjI impI)
  show "relevance_score trip (clat, clon) p =
     5 * real (length (filter (\<lambda>i. str_in (lower i) (lower (category p))
                                    \<or> str_in (lower i) (lower (name p))) (interests trip)))
     + max 0 (5 - calculate_distance clat clon (latitude p) (longitude p) / 2)
     + (case rating p of None \<Rightarrow> 0 | Some r \<Rightarrow> r)
     + (if estimated_cost p < daily_budget trip / 3 then 2 else 0)"
    by (rule relevance_score_parts)
  show "simple_score trip (clat, clon) p =
       5 * real (length (filter (\<lambda>i. str_in (lower i) (lower (category p))
                                      \<or> str_in (lower i) (lower (name p))) (interests trip)))
       + max 0 (5 - sqrt ((latitude p - clat)\<^sup>2 + (longitude p - clon)\<^sup>2) * 100)
       + (case rating p of None \<Rightarrow> 0 | Some r \<Rightarrow> r)
       + (if estimated_cost p < daily_budget trip / 3 then 2 else 0)"
    by (rule simple_score_parts)
next
  assume "10 \<le> calculate_distance clat clon (latitude p) (longitude p)"
  then show "max 0 (5 - calculate_distance clat clon (latitude p) (longitude p) / 2) = 0"
    by simp
next
  assume "1 / 20 \<le> sqrt ((latitude p - clat)\<^sup>2 + (longitude p - clon)\<^sup>2)"
  then show "max 0 (5 - sqrt ((latitude p - clat)\<^sup>2 + (longitude p - clon)\<^sup>2) * 100) = 0"
    by simp
qed

theorem proximity_score_witness:
  "10 \<le> calculate_distance 0 0 1 0
   \<and> max 0 (5 - calculate_distance 0 0 1 0 / 2) = 0
   \<and> relevance_score demo_trip (0, 0) (demo_far\<lparr>latitude := 1\<rparr>) = 0
   \<and> simple_score demo_trip (0, 0) (demo_far\<lparr>latitude := 1\<rparr>) = 0"
proof -
  have d: "calculate_distance 0 0 1 0 = 6371 * (pi / 180)"
    using calculate_distance_north [of 1] by simp
  have "10 \<le> 6371 * (pi / 180)"
    using pi_ge_two by simp
  then have far: "10 \<le> calculate_distance 0 0 1 0"
    by (simp only: d)
  show ?thesis
    using proximity_score [of demo_trip 0 0 "demo_far\<lparr>latitude := 1\<rparr>"] far
    by (simp add: demo_far_def demo_trip_def lower_def lower_char_def daily_budget_def
          num_days_def)
qed

theorem proximity_score_counterexample:
  "simple_score demo_trip (0, 0) demo_far = 0
   \<and> calculate_distance 0 0 (latitude demo_far) (longitude demo_far) < 10
   \<and> 0 < max 0 (5 - calculate_distance 0 0 (latitude demo_far) (longitude demo_far) / 2)"
proof -
  have "6371 * pi / 3000 < 10"
    using pi_less_4 by simp
  then show ?thesis
    by (simp add: demo_far_score demo_far_distance)
qed


section \<open>The allocation loops on floats\<close>

lemma add_places_fl_unfold:
  "add_places_fl rnd trip ranked (dp, dc, cur) =
     (if length dp < target_places_per_day trip \<and> cur < length ranked
         \<and> rnd (dc + place_cost_fl rnd trip (ranked ! cur)) \<le> ceiling_fl rnd trip
      then add_places_fl rnd trip ranked
             (dp @ [ranked ! cur], rnd (dc + place_cost_fl rnd trip (ranked ! cur)), cur + 1)
      else (dp, dc, cur))"
  by (subst add_places_fl.simps) (simp add: place_cost_fl_def ceiling_fl_def)

lemma add_places_fl_char:
  assumes "add_places_fl rnd trip ranked (dp, dc, cur) = (dp', dc', cur')"
  shows "\<exists>n. dp' = dp @ take n (drop cur ranked) \<and> cur' = cur + n
           \<and> (n = 0 \<or> cur + n \<le> length ranked)
           \<and> dc' = foldl (\<lambda>c p. rnd (c + place_cost_fl rnd trip p)) dc
                      (take n (drop cur ranked))
           \<and> (\<forall>k<n. length dp + k < target_places_per_day trip
                      \<and> cur + k < length ranked
                      \<and> rnd (foldl (\<lambda>c p. rnd (c + place_cost_fl rnd trip p)) dc
                                (take k (drop cur ranked))
                              + place_cost_fl rnd trip (ranked ! (cur + k)))
                          \<le> ceiling_fl rnd trip)
           \<and> \<not> (length dp + n < target_places_per_day trip
                  \<and> cur + n < length ranked
                  \<and> rnd (foldl (\<lambda>c p. rnd (c + place_cost_fl rnd trip p)) dc
                            (take n (drop cur ranked))
                          + place_cost_fl rnd trip (ranked ! (cur + n)))
                      \<le> ceiling_fl rnd trip)"
  using assms
proof (induction rnd trip ranked "(dp, dc, cur)" arbitrary: dp dc cur
       rule: add_places_fl.induct)
  case (1 rnd trip ranked dp dc cur)
  let ?x = "ranked ! cur"
  let ?step = "\<lambda>c p. rnd (c + place_cost_fl rnd trip p)"
  let ?go = "length dp < target_places_per_day trip \<and> cur < length ranked
             \<and> rnd (dc + place_cost_fl rnd trip ?x) \<le> ceiling_fl rnd trip"
  show ?case
  proof (cases ?go)
    case False
    then have "add_places_fl rnd trip ranked (dp, dc, cur) = (dp, dc, cur)"
      by (subst add_places_fl_unfold) (simp only: if_False)
    then have "dp' = dp" "dc' = dc" "cur' = cur"
      using "1.prems" by simp_all
    then show ?thesis
      using False by (intro exI [of _ 0]) auto
  next
    case True
    then have rec: "add_places_fl rnd trip ranked (dp @ [?x], ?step dc ?x, cur + 1)
                    = (dp', dc', cur')"
      using "1.prems" by (subst (asm) add_places_fl_unfold) simp
    have go': "length dp < target_places_per_day trip" "cur < length ranked"
      "rnd (dc + rnd (estimated_cost ?x * float_of_int rnd (group_size trip)))
         \<le> rnd (daily_budget_fl rnd trip * rnd 1.2)"
      using True by (simp_all add: place_cost_fl_def ceiling_fl_def)
    from "1.hyps" [OF go' rec [unfolded place_cost_fl_def]]
    obtain n where n:
      "dp' = (dp @ [?x]) @ take n (drop (cur + 1) ranked)" "cur' = cur + 1 + n"
      "n = 0 \<or> cur + 1 + n \<le> length ranked"
      "dc' = foldl ?step (?step dc ?x) (take n (drop (cur + 1) ranked))"
      "\<forall>k<n. length (dp @ [?x]) + k < target_places_per_day trip
             \<and> cur + 1 + k < length ranked
             \<and> rnd (foldl ?step (?step dc ?x) (take k (drop (cur + 1) ranked))
                     + place_cost_fl rnd trip (ranked ! (cur + 1 + k)))
                 \<le> ceiling_fl rnd trip"
      "\<not> (length (dp @ [?x]) + n < target_places_per_day trip
          \<and> cur + 1 + n < length ranked
          \<and> rnd (foldl ?step (?step dc ?x) (take n (drop (cur + 1) ranked))
                  + place_cost_fl rnd trip (ranked ! (cur + 1 + n)))
              \<le> ceiling_fl rnd trip)"
      unfolding place_cost_fl_def [symmetric] by auto
    have cur: "cur < length ranked" using True by simp
    have tk: "\<And>m. take (Suc m) (drop cur ranked) = ?x # take m (drop (Suc cur) ranked)"
      using cur by (rule take_Suc_drop)
    have all: "length dp + k < target_places_per_day trip
                 \<and> cur + k < length ranked
                 \<and> rnd (foldl ?step dc (take k (drop cur ranked))
                         + place_cost_fl rnd trip (ranked ! (cur + k)))
                     \<le> ceiling_fl rnd trip" if "k < Suc n" for k
    proof (cases k)
      case 0
      then show ?thesis using True by simp
    next
      case (Suc j)
      then have "j < n" using that by simp
      with n(5) show ?thesis by (simp add: Suc tk)
    qed
    have le: "cur + Suc n \<le> length ranked"
      using n(3) cur by auto
    show ?thesis
      using n(1,2,4,6) all le by (intro exI [of _ "Suc n"]) (auto simp: tk)
  qed
qed

lemma day_loop_fl_Cons:
  "day_loop_fl rnd trip ranked (d # ds) (acc, cur) =
     (case add_places_fl rnd trip ranked
             ([], rnd (0 + rnd (40 * float_of_int rnd (group_size trip))), cur) of
        (dp, dc, c1) \<Rightarrow>
          if 1 \<le> d
             \<and> 0 \<le> py_round_fl rnd (rnd (dc + rnd (15 * float_of_int rnd (group_size trip)))) 2
          then day_loop_fl rnd trip ranked ds
                 (acc @ [\<lparr> day_index = d, day_date = start_date trip + (d - 1), places = dp,
                            total_cost = py_round_fl rnd
                              (rnd (dc + rnd (15 * float_of_int rnd (group_size trip)))) 2,
                            day_notes = Some (day_note_fl rnd trip) \<rparr>], c1)
          else Inl ValidationError)"
  apply (cases "add_places_fl rnd trip ranked
             ([], rnd (0 + rnd (40 * float_of_int rnd (group_size trip))), cur)")
  apply (simp only: day_loop_fl.simps Let_def prod.case DayPlan_init_def day_note_fl_def)
  apply (simp only: if_distrib [of "case_sum Inl f" for f] sum.case cong: if_cong)
  done

declare day_loop_fl.simps(2) [simp del]

lemma day_loop_fl_fail:
  assumes "add_places_fl rnd trip ranked
             ([], rnd (0 + rnd (40 * float_of_int rnd (group_size trip))), cur) = (dp, dc, c1)"
    and "\<not> (1 \<le> d
            \<and> 0 \<le> py_round_fl rnd (rnd (dc + rnd (15 * float_of_int rnd (group_size trip)))) 2)"
  shows "day_loop_fl rnd trip ranked (d # ds) (acc, cur) = Inl ValidationError"
  by (simp only: day_loop_fl_Cons assms(1) prod.case if_not_P [OF assms(2)])

lemma day_loop_fl_ok:
  assumes "add_places_fl rnd trip ranked
             ([], rnd (0 + rnd (40 * float_of_int rnd (group_size trip))), cur) = (dp, dc, c1)"
    and "1 \<le> d
         \<and> 0 \<le> py_round_fl rnd (rnd (dc + rnd (15 * float_of_int rnd (group_size trip)))) 2"
  shows "day_loop_fl rnd trip ranked (d # ds) (acc, cur) =
           day_loop_fl rnd trip ranked ds
             (acc @ [\<lparr> day_index = d, day_date = start_date trip + (d - 1), places = dp,
                        total_cost = py_round_fl rnd
                          (rnd (dc + rnd (15 * float_of_int rnd (group_size trip)))) 2,
                        day_notes = Some (day_note_fl rnd trip) \<rparr>], c1)"
  by (simp only: day_loop_fl_Cons assms(1) prod.case if_P [OF assms(2)])

lemma day_loop_fl_acc:
  "day_loop_fl rnd trip ranked ds (acc, cur) =
     (case day_loop_fl rnd trip ranked ds ([], cur) of
        Inl e \<Rightarrow> Inl e
      | Inr (new, c) \<Rightarrow> Inr (acc @ new, c))"
proof (induction ds arbitrary: acc cur)
  case Nil
  show ?case by simp
next
  case (Cons d ds)
  let ?m = "rnd (0 + rnd (40 * float_of_int rnd (group_size trip)))"
  let ?t = "rnd (15 * float_of_int rnd (group_size trip))"
  obtain dp dc c1 where ap: "add_places_fl rnd trip ranked ([], ?m, cur) = (dp, dc, c1)"
    by (cases "add_places_fl rnd trip ranked ([], ?m, cur)") auto
  show ?case
  proof (cases "1 \<le> d \<and> 0 \<le> py_round_fl rnd (rnd (dc + ?t)) 2")
    case False
    show ?thesis
      by (simp only: day_loop_fl_fail [OF ap False] sum.case)
  next
    case True
    define plan where
      "plan = \<lparr> day_index = d, day_date = start_date trip + (d - 1), places = dp,
                 total_cost = py_round_fl rnd (rnd (dc + ?t)) 2,
                 day_notes = Some (day_note_fl rnd trip) \<rparr>"
    have l: "day_loop_fl rnd trip ranked (d # ds) (acc, cur)
             = day_loop_fl rnd trip ranked ds (acc @ [plan], c1)" for acc
      unfolding plan_def by (rule day_loop_fl_ok [OF ap True])
    have a: "day_loop_fl rnd trip ranked ds (acc @ [plan], c1) =
               (case day_loop_fl rnd trip ranked ds ([], c1) of
                  Inl e \<Rightarrow> Inl e
                | Inr (new, c) \<Rightarrow> Inr ((acc @ [plan]) @ new, c))" for acc
      by (rule Cons.IH)
    show ?thesis
      by (simp add: l a [of acc] a [of "[]", simplified] split: sum.splits)
  qed
qed

lemma day_loop_fl_induct [consumes 1, case_names Nil Cons]:
  assumes run: "day_loop_fl rnd trip ranked ds ([], cur) = Inr (plans, cur')"
    and nil: "\<And>cur. P [] cur cur []"
    and cons: "\<And>d ds cur n rest cur'.
        1 \<le> d \<Longrightarrow>
        n = 0 \<or> cur + n \<le> length ranked \<Longrightarrow>
        0 \<le> day_total_fl rnd trip (take n (drop cur ranked)) \<Longrightarrow>
        (\<forall>k<n. k < target_places_per_day trip
               \<and> cur + k < length ranked
               \<and> rnd (running_cost_fl rnd trip (take k (drop cur ranked))
                       + place_cost_fl rnd trip (ranked ! (cur + k)))
                   \<le> ceiling_fl rnd trip) \<Longrightarrow>
        \<not> (n < target_places_per_day trip
           \<and> cur + n < length ranked
           \<and> rnd (running_cost_fl rnd trip (take n (drop cur ranked))
                   + place_cost_fl rnd trip (ranked ! (cur + n)))
               \<le> ceiling_fl rnd trip) \<Longrightarrow>
        day_loop_fl rnd trip ranked ds ([], cur + n) = Inr (rest, cur') \<Longrightarrow>
        P ds (cur + n) cur' rest \<Longrightarrow>
        P (d # ds) cur cur'
          (\<lparr> day_index = d, day_date = start_date trip + (d - 1),
              places = take n (drop cur ranked),
              total_cost = day_total_fl rnd trip (take n (drop cur ranked)),
              day_notes = Some (day_note_fl rnd trip) \<rparr> # rest)"
  shows "P ds cur cur' plans"
  using run
proof (induction ds arbitrary: cur plans)
  case Nil
  then show ?case using nil by simp
next
  case (Cons d ds)
  let ?m = "rnd (0 + rnd (40 * float_of_int rnd (group_size trip)))"
  let ?t = "rnd (15 * float_of_int rnd (group_size trip))"
  obtain dp dc c1 where ap: "add_places_fl rnd trip ranked ([], ?m, cur) = (dp, dc, c1)"
    by (cases "add_places_fl rnd trip ranked ([], ?m, cur)") auto
  from add_places_fl_char [OF ap, folded running_cost_fl_def] obtain n where n:
    "dp = take n (drop cur ranked)" "c1 = cur + n" "n = 0 \<or> cur + n \<le> length ranked"
    "dc = running_cost_fl rnd trip (take n (drop cur ranked))"
    "\<forall>k<n. k < target_places_per_day trip \<and> cur + k < length ranked
        \<and> rnd (running_cost_fl rnd trip (take k (drop cur ranked))
                + place_cost_fl rnd trip (ranked ! (cur + k)))
            \<le> ceiling_fl rnd trip"
    "\<not> (n < target_places_per_day trip \<and> cur + n < length ranked
        \<and> rnd (running_cost_fl rnd trip (take n (drop cur ranked))
                + place_cost_fl rnd trip (ranked ! (cur + n)))
            \<le> ceiling_fl rnd trip)"
    by auto
  have ok: "1 \<le> d \<and> 0 \<le> py_round_fl rnd (rnd (dc + ?t)) 2"
  proof (rule ccontr)
    assume "\<not> ?thesis"
    from day_loop_fl_fail [OF ap this] Cons.prems show False by simp
  qed
  define plan where
    "plan = \<lparr> day_index = d, day_date = start_date trip + (d - 1), places = dp,
               total_cost = py_round_fl rnd (rnd (dc + ?t)) 2,
               day_notes = Some (day_note_fl rnd trip) \<rparr>"
  have "day_loop_fl rnd trip ranked (d # ds) ([], cur)
        = day_loop_fl rnd trip ranked ds ([] @ [plan], c1)"
    unfolding plan_def by (rule day_loop_fl_ok [OF ap ok])
  then have "day_loop_fl rnd trip ranked ds ([plan], c1) = Inr (plans, cur')"
    using Cons.prems by simp
  then obtain rest where rest:
    "day_loop_fl rnd trip ranked ds ([], c1) = Inr (rest, cur')" "plans = plan # rest"
    by (subst (asm) day_loop_fl_acc) (auto split: sum.splits)
  have "P ds (cur + n) cur' rest"
    using rest(1) Cons.IH n(2) by simp
  from cons [OF _ n(3) _ n(5) n(6) rest(1) [unfolded n(2)] this, of d] ok
  show ?case
    unfolding rest(2) plan_def n(1) n(4) day_total_fl_def by simp
qed

lemma day_loop_fl_cost:
  assumes "day_loop_fl rnd trip ranked ds ([], cur) = Inr (plans, cur')"
  shows "\<forall>pl\<in>set plans.
           total_cost pl = day_total_fl rnd trip (places pl)
           \<and> 0 \<le> total_cost pl
           \<and> day_notes pl = Some (day_note_fl rnd trip)"
  using assms
proof (induction rule: day_loop_fl_induct)
  case (Nil cur)
  show ?case by simp
next
  case (Cons d ds cur n rest cur')
  show ?case
    using Cons.IH Cons.hyps(3) by auto
qed


lemma daily_plans_fl_Inr:
  "daily_plans_fl rnd trip ranked = Inr plans \<longleftrightarrow>
     (\<exists>c. day_loop_fl rnd trip ranked [1 .. num_days trip] ([], 0) = Inr (plans, c))"
  by (auto simp: daily_plans_fl_def split: sum.splits)



section \<open>The float model without rounding\<close>

text \<open>
  With the identity for \<open>rnd\<close> and the exact sum of a list, the functions on floats are
  the functions on reals: the two models differ in the rounding of the operations only.
\<close>

lemma float_of_int_exact: "float_of_int (\<lambda>x. x) n = real_of_int n"
  by (simp add: float_of_int_def)

lemma daily_budget_fl_exact: "daily_budget_fl (\<lambda>x. x) r = daily_budget r"
  by (simp add: daily_budget_fl_def daily_budget_def float_of_int_def)

lemma py_round_fl_exact: "py_round_fl (\<lambda>x. x) x n = py_round x n"
  by (simp add: py_round_fl_def py_round_def)

lemma float_sum_exact: "float_sum (\<lambda>x. x) xs = sum_list xs"
proof -
  have "foldl (\<lambda>s x. s + x) a xs = a + sum_list xs" for a :: real
    by (induction xs arbitrary: a) simp_all
  then show ?thesis by (simp add: float_sum_def)
qed

lemma interest_match_fl_exact:
  "interest_match_fl (\<lambda>x. x) ins p s = interest_match ins p s"
  by (induction ins arbitrary: s) simp_all

lemma simple_score_fl_exact: "simple_score_fl (\<lambda>x. x) trip cc p = simple_score trip cc p"
  by (simp add: simple_score_fl_def simple_score_def interest_match_fl_exact
        daily_budget_fl_exact)

lemma ranked_places_fl_exact:
  "ranked_places_fl (\<lambda>x. x) trip ps cc = ranked_places trip ps cc"
  by (simp add: ranked_places_fl_def ranked_places_def simple_score_fl_exact)

lemma add_places_fl_exact:
  "add_places_fl (\<lambda>x. x) trip ranked s = add_places trip ranked s"
proof (induction trip ranked s rule: add_places.induct)
  case (1 trip ranked day_places day_cost current_index)
  then show ?case
    by (subst add_places_fl.simps, subst add_places.simps)
       (simp add: float_of_int_exact daily_budget_fl_exact)
qed

lemma day_note_fl_exact:
  "day_note_fl (\<lambda>x. x) trip
     = ''Includes meals (~$'' @ str_int (40 * group_size trip)
       @ '') and transport (~$'' @ str_int (15 * group_size trip) @ '')''"
proof -
  have "round_half_even (40 * real_of_int (group_size trip)) = 40 * group_size trip"
    using round_half_even_of_int [of "40 * group_size trip"] by simp
  moreover have "round_half_even (15 * real_of_int (group_size trip)) = 15 * group_size trip"
    using round_half_even_of_int [of "15 * group_size trip"] by simp
  ultimately show ?thesis
    by (simp only: day_note_fl_def float_of_int_exact)
qed

lemma day_loop_fl_exact:
  "day_loop_fl (\<lambda>x. x) trip ranked ds (acc, cur) = day_loop trip ranked ds (acc, cur)"
proof (induction ds arbitrary: acc cur)
  case Nil
  show ?case by simp
next
  case (Cons d ds)
  show ?case
    by (simp only: day_loop_fl_Cons day_loop_Cons add_places_fl_exact float_of_int_exact
          py_round_fl_exact day_note_fl_exact Cons add_0)
qed

lemma daily_plans_fl_exact: "daily_plans_fl (\<lambda>x. x) trip ranked = daily_plans trip ranked"
  by (simp only: daily_plans_fl_def daily_plans_def day_loop_fl_exact)

lemma create_itinerary_simple_fl_exact:
  "create_itinerary_simple_fl (\<lambda>x. x) sum_list trip ps cc = create_itinerary_simple trip ps cc"
  by (simp only: create_itinerary_simple_fl_def create_itinerary_simple_def
        ranked_places_fl_exact daily_plans_fl_exact py_round_fl_exact)


section \<open>Evaluating binary64 rounding\<close>

text \<open>
  For a number whose binary exponent is known, \<open>double_round\<close> is a rounding to an
  integer after scaling by a power of two, which the simplifier evaluates.
\<close>

lemma double_round_exponent:
  assumes "2 powr of_int e \<le> \<bar>x\<bar>" and "\<bar>x\<bar> < 2 powr (of_int e + 1)"
  shows "double_round x
         = of_int (round_half_even (x / 2 powr (of_int e - 52))) * 2 powr (of_int e - 52)"
proof -
  have pos: "0 < \<bar>x\<bar>"
    using assms(1) powr_gt_zero [of 2 "of_int e"] by linarith
  then have nz: "x \<noteq> 0" by simp
  have "\<lfloor>log 2 \<bar>x\<bar>\<rfloor> = e"
    by (subst floor_log_eq_powr_iff) (use assms pos in simp_all)
  then show ?thesis
    unfolding double_round_def Let_def using nz by (simp only: if_False)
qed

lemma two_powr_neg: "(2 :: real) powr (- real n) = 1 / 2 ^ n"
  using powr_realpow [of 2 n] by (simp add: powr_minus inverse_eq_divide)

lemma two_powr_pos: "(2 :: real) powr (real n) = 2 ^ n"
  using powr_realpow [of 2 n] by simp


lemma double_round_up:
  assumes "2 ^ k \<le> \<bar>x\<bar>" and "\<bar>x\<bar> < 2 ^ Suc k" and "k \<le> 52"
  shows "double_round x = of_int (round_half_even (x * 2 ^ (52 - k))) / 2 ^ (52 - k)"
proof -
  have a: "2 powr of_int (int k) = (2 :: real) ^ k"
    using two_powr_pos [of k] by simp
  have "of_int (int k) + (1 :: real) = real (Suc k)"
    by simp
  then have b: "2 powr (of_int (int k) + 1) = (2 :: real) ^ Suc k"
    by (simp only: two_powr_pos)
  have "of_int (int k) - (52 :: real) = - real (52 - k)"
    using assms(3) by simp
  then have c: "2 powr (of_int (int k) - 52) = 1 / (2 :: real) ^ (52 - k)"
    by (simp only: two_powr_neg)
  have "double_round x
        = of_int (round_half_even (x / (1 / 2 ^ (52 - k)))) * (1 / 2 ^ (52 - k))"
    using double_round_exponent [of "int k" x] assms(1,2) unfolding a b c by blast
  then show ?thesis by simp
qed

lemma double_round_down:
  assumes "1 / 2 ^ k \<le> \<bar>x\<bar>" and "\<bar>x\<bar> < 2 / 2 ^ k"
  shows "double_round x = of_int (round_half_even (x * 2 ^ (52 + k))) / 2 ^ (52 + k)"
proof -
  have "of_int (- int k) = - real k"
    by simp
  then have a: "2 powr of_int (- int k) = 1 / (2 :: real) ^ k"
    by (simp only: two_powr_neg)
  have "(2 :: real) powr (of_int (- int k) + 1) = 2 powr of_int (- int k) * 2 powr 1"
    by (rule powr_add)
  then have b: "2 powr (of_int (- int k) + 1) = 2 / (2 :: real) ^ k"
    unfolding a by simp
  have "of_int (- int k) - (52 :: real) = - real (52 + k)"
    by simp
  then have c: "2 powr (of_int (- int k) - 52) = 1 / (2 :: real) ^ (52 + k)"
    by (simp only: two_powr_neg)
  have "double_round x
        = of_int (round_half_even (x / (1 / 2 ^ (52 + k)))) * (1 / 2 ^ (52 + k))"
    using double_round_exponent [of "- int k" x] assms unfolding a b c by blast
  then show ?thesis by simp
qed



section \<open>The float examples, evaluated\<close>






section \<open>The greedy packing of a day\<close>





section \<open>Costs on floats\<close>

lemma round_half_even_nearest:
  "\<bar>of_int (round_half_even y) - y\<bar> \<le> 1 / 2"
  by (simp add: round_half_even_def Let_def)

lemma round_half_even_tie:
  assumes "\<bar>of_int (round_half_even y) - y\<bar> = 1 / 2"
  shows "even (round_half_even y)"
proof -
  let ?f = "\<lfloor>y\<rfloor>"
  let ?d = "y - of_int ?f"
  have d: "0 \<le> ?d" "?d < 1" by linarith+
  show ?thesis
  proof (cases "?d < 1 / 2")
    case True
    then have "round_half_even y = ?f"
      by (simp add: round_half_even_def Let_def)
    with assms True d show ?thesis by simp
  next
    case False
    show ?thesis
    proof (cases "1 / 2 < ?d")
      case True
      then have "round_half_even y = ?f + 1"
        by (simp add: round_half_even_def Let_def)
      with assms True d show ?thesis by simp
    next
      case False
      with \<open>\<not> ?d < 1 / 2\<close> show ?thesis
        by (simp add: round_half_even_def Let_def)
    qed
  qed
qed

lemma round_half_even_nonneg: "0 \<le> y \<Longrightarrow> 0 \<le> round_half_even y"
  using round_half_even_mono [of 0 y] round_half_even_of_int [of 0] by simp

lemma py_round_fl_nonneg:
  assumes "\<forall>x. 0 \<le> x \<longrightarrow> 0 \<le> rnd x" and "0 \<le> x"
  shows "0 \<le> py_round_fl rnd x 2"
proof -
  have "0 \<le> round_half_even (x * 10 ^ 2)"
    using assms(2) by (intro round_half_even_nonneg) simp
  then have "0 \<le> real_of_int (round_half_even (x * 10 ^ 2)) / 10 ^ 2"
    by simp
  then show ?thesis
    unfolding py_round_fl_def using assms(1) by blast
qed

lemma running_cost_fl_nonneg:
  assumes r: "\<forall>x. 0 \<le> x \<longrightarrow> 0 \<le> rnd x" and "0 \<le> group_size trip"
    and "\<forall>p\<in>set ps. 0 \<le> estimated_cost p"
  shows "0 \<le> running_cost_fl rnd trip ps"
proof -
  have g: "0 \<le> float_of_int rnd (group_size trip)"
    unfolding float_of_int_def using r assms(2) by simp
  have pc: "0 \<le> place_cost_fl rnd trip p" if "p \<in> set ps" for p
    unfolding place_cost_fl_def using r g assms(3) that by simp
  have "0 \<le> foldl (\<lambda>c p. rnd (c + place_cost_fl rnd trip p)) a qs"
    if "0 \<le> a" "set qs \<subseteq> set ps" for a qs
    using that
  proof (induction qs arbitrary: a)
    case Nil
    then show ?case by simp
  next
    case (Cons q qs)
    have "0 \<le> rnd (a + place_cost_fl rnd trip q)"
      using r Cons.prems pc [of q] by simp
    then show ?case
      using Cons.IH Cons.prems by simp
  qed
  moreover have "0 \<le> rnd (0 + rnd (40 * float_of_int rnd (group_size trip)))"
    using r g by simp
  ultimately show ?thesis
    unfolding running_cost_fl_def by simp
qed

lemma day_total_fl_nonneg:
  assumes r: "\<forall>x. 0 \<le> x \<longrightarrow> 0 \<le> rnd x" and "0 \<le> group_size trip"
    and "\<forall>p\<in>set ps. 0 \<le> estimated_cost p"
  shows "0 \<le> day_total_fl rnd trip ps"
proof -
  have "0 \<le> float_of_int rnd (group_size trip)"
    unfolding float_of_int_def using r assms(2) by simp
  then have "0 \<le> rnd (15 * float_of_int rnd (group_size trip))"
    using r by simp
  then have "0 \<le> rnd (running_cost_fl rnd trip ps
                     + rnd (15 * float_of_int rnd (group_size trip)))"
    using r running_cost_fl_nonneg [OF assms] by simp
  then show ?thesis
    unfolding day_total_fl_def by (rule py_round_fl_nonneg [OF r])
qed

lemma day_loop_fl_returns:
  assumes "\<forall>d\<in>set ds. 1 \<le> d" and r: "\<forall>x. 0 \<le> x \<longrightarrow> 0 \<le> rnd x"
    and g: "0 \<le> group_size trip" and c: "\<forall>p\<in>set ranked. 0 \<le> estimated_cost p"
  shows "\<exists>plans c. day_loop_fl rnd trip ranked ds ([], cur) = Inr (plans, c)"
  using assms(1)
proof (induction ds arbitrary: cur)
  case Nil
  show ?case by simp
next
  case (Cons d ds)
  let ?m = "rnd (0 + rnd (40 * float_of_int rnd (group_size trip)))"
  let ?t = "rnd (15 * float_of_int rnd (group_size trip))"
  obtain dp dc c1 where ap: "add_places_fl rnd trip ranked ([], ?m, cur) = (dp, dc, c1)"
    by (cases "add_places_fl rnd trip ranked ([], ?m, cur)") auto
  from add_places_fl_char [OF ap, folded running_cost_fl_def] obtain n where n:
    "dc = running_cost_fl rnd trip (take n (drop cur ranked))"
    by auto
  have "\<forall>p\<in>set (take n (drop cur ranked)). 0 \<le> estimated_cost p"
    using c by (meson in_set_dropD in_set_takeD)
  from day_total_fl_nonneg [OF r g this]
  have "0 \<le> py_round_fl rnd (rnd (dc + ?t)) 2"
    unfolding day_total_fl_def n .
  then have ok: "1 \<le> d \<and> 0 \<le> py_round_fl rnd (rnd (dc + ?t)) 2"
    using Cons.prems by simp
  from Cons.IH [of c1] Cons.prems obtain rest c where
    rest: "day_loop_fl rnd trip ranked ds ([], c1) = Inr (rest, c)"
    by auto
  show ?case
    by (subst day_loop_fl_ok [OF ap ok], subst day_loop_fl_acc) (simp add: rest)
qed

lemma daily_plans_fl_cost:
  assumes "daily_plans_fl rnd trip ranked = Inr plans" and "pl \<in> set plans"
  shows "total_cost pl = day_total_fl rnd trip (places pl)"
    and "0 \<le> total_cost pl"
    and "day_notes pl = Some (day_note_fl rnd trip)"
proof -
  from assms(1) obtain c where
    run: "day_loop_fl rnd trip ranked [1 .. num_days trip] ([], 0) = Inr (plans, c)"
    by (auto simp: daily_plans_fl_Inr)
  note c = day_loop_fl_cost [OF run, rule_format, OF assms(2)]
  from c show "total_cost pl = day_total_fl rnd trip (places pl)" by (rule conjunct1)
  from c show "0 \<le> total_cost pl" by blast
  from c show "day_notes pl = Some (day_note_fl rnd trip)" by blast
qed

lemma create_itinerary_simple_fl_Inr:
  "create_itinerary_simple_fl rnd fsum trip ps cc = Inr it \<longleftrightarrow>
     (\<exists>plans. daily_plans_fl rnd trip (ranked_places_fl rnd trip ps cc) = Inr plans
        \<and> 0 \<le> py_round_fl rnd (fsum (map total_cost plans)) 2
        \<and> it = \<lparr> trip_request = trip, days = plans,
                  trip_total_cost = py_round_fl rnd (fsum (map total_cost plans)) 2,
                  trip_notes = Some (''Itinerary created for '' @ str_int (num_days trip)
                      @ '' days with '' @ pace trip @ '' pace. Total cost is ''
                      @ (if fsum (map total_cost plans) \<le> budget trip
                         then ''within budget'' else ''slightly over budget'') @ ''.'') \<rparr>)"
  unfolding create_itinerary_simple_fl_def Itinerary_init_def Let_def
  by (cases "daily_plans_fl rnd trip (ranked_places_fl rnd trip ps cc)") auto

lemmas cent_defs = cent_trip_def cent_kiosk_def cent_stall_def cent_cart_def

lemma ranked_places_fl_single: "ranked_places_fl rnd trip [p] cc = [p]"
  by (simp add: ranked_places_fl_def sort_by_score_reverse_def)

lemma cent_budget: "budget cent_trip = 7741969234426593 / 70368744177664"
  by (simp add: cent_trip_def double_round_up [of 6] round_half_even_def)

lemma cent_daily_plans_stall:
  "daily_plans_fl double_round cent_trip [cent_stall] =
     Inr [\<lparr> day_index = 1, day_date = 739000, places = [cent_stall],
             total_cost = 1936195996048425 / 35184372088832,
             day_notes = Some ''Includes meals (~$40) and transport (~$15)'' \<rparr>,
          \<lparr> day_index = 2, day_date = 739001, places = [],
             total_cost = 55,
             day_notes = Some ''Includes meals (~$40) and transport (~$15)'' \<rparr>]"
  by (simp add: daily_plans_fl_def day_loop_fl.simps add_places_fl.simps DayPlan_init_def
        target_places_per_day_def pace_map_def daily_budget_fl_def float_of_int_def
        num_days_def py_round_fl_def round_half_even_def str_int_def digits_of.simps
        cent_defs upto.simps double_round_up [of 0] double_round_up [of 1]
        double_round_up [of 3] double_round_up [of 5] double_round_up [of 6]
        double_round_down [of 5])


lemma cent_daily_plans_cart:
  "daily_plans_fl double_round cent_trip [cent_cart] =
     Inr [\<lparr> day_index = 1, day_date = 739000, places = [cent_cart],
             total_cost = 7741969234426593 / 140737488355328,
             day_notes = Some ''Includes meals (~$40) and transport (~$15)'' \<rparr>,
          \<lparr> day_index = 2, day_date = 739001, places = [],
             total_cost = 55,
             day_notes = Some ''Includes meals (~$40) and transport (~$15)'' \<rparr>]"
  by (simp add: daily_plans_fl_def day_loop_fl.simps add_places_fl.simps DayPlan_init_def
        target_places_per_day_def pace_map_def daily_budget_fl_def float_of_int_def
        num_days_def py_round_fl_def round_half_even_def str_int_def digits_of.simps
        cent_defs upto.simps double_round_up [of 0] double_round_up [of 1]
        double_round_up [of 3] double_round_up [of 5] double_round_up [of 6]
        double_round_down [of 7])

lemma cent_daily_plans_kiosk:
  "daily_plans_fl double_round cent_trip [cent_kiosk] =
     Inr [\<lparr> day_index = 1, day_date = 739000, places = [cent_kiosk],
             total_cost = 7743376609310147 / 140737488355328,
             day_notes = Some ''Includes meals (~$40) and transport (~$15)'' \<rparr>,
          \<lparr> day_index = 2, day_date = 739001, places = [],
             total_cost = 55,
             day_notes = Some ''Includes meals (~$40) and transport (~$15)'' \<rparr>]"
  by (simp add: daily_plans_fl_def day_loop_fl.simps add_places_fl.simps DayPlan_init_def
        target_places_per_day_def pace_map_def daily_budget_fl_def float_of_int_def
        num_days_def py_round_fl_def round_half_even_def str_int_def digits_of.simps
        cent_defs upto.simps double_round_up [of 0] double_round_up [of 1]
        double_round_up [of 3] double_round_up [of 5] double_round_up [of 6]
        double_round_down [of 6])

lemma cent_num_days: "str_int (num_days cent_trip) = ''2''" "pace cent_trip = ''relaxed''"
  by (simp_all add: cent_trip_def num_days_def str_int_def digits_of.simps)

lemma cent_sums:
  "float_sum double_round [1936195996048425 / 35184372088832, 55]
     = 3871336460934185 / 35184372088832"
  "float_sum double_round [7741969234426593 / 140737488355328, 55]
     = 483829096686551 / 4398046511104"
  "float_sum double_round [7743376609310147 / 140737488355328, 55]
     = 3870984617213297 / 35184372088832"
  by (simp_all add: float_sum_def round_half_even_def double_round_up [of 5]
        double_round_up [of 6])

lemma cent_totals:
  "py_round_fl double_round (3871336460934185 / 35184372088832) 2
     = 3871336460934185 / 35184372088832"
  "py_round_fl double_round (483829096686551 / 4398046511104) 2
     = 7741265546984817 / 70368744177664"
  "py_round_fl double_round (3870984617213297 / 35184372088832) 2
     = 7741969234426593 / 70368744177664"
  by (simp_all add: py_round_fl_def round_half_even_def double_round_up [of 6])

lemma cent_itinerary_stall:
  "create_itinerary_simple_fl double_round (float_sum double_round) cent_trip [cent_stall] (0, 0)
     = Inr \<lparr> trip_request = cent_trip,
              days = [\<lparr> day_index = 1, day_date = 739000, places = [cent_stall],
                         total_cost = 1936195996048425 / 35184372088832,
                         day_notes = Some ''Includes meals (~$40) and transport (~$15)'' \<rparr>,
                      \<lparr> day_index = 2, day_date = 739001, places = [],
                         total_cost = 55,
                         day_notes = Some ''Includes meals (~$40) and transport (~$15)'' \<rparr>],
              trip_total_cost = 3871336460934185 / 35184372088832,
              trip_notes = Some
                ''Itinerary created for 2 days with relaxed pace. Total cost is slightly over budget.'' \<rparr>"
  unfolding create_itinerary_simple_fl_def ranked_places_fl_single Let_def
    cent_daily_plans_stall
  by (simp add: Itinerary_init_def cent_sums cent_totals cent_num_days cent_budget)

lemma cent_itinerary_cart:
  "create_itinerary_simple_fl double_round (float_sum double_round) cent_trip [cent_cart] (0, 0)
     = Inr \<lparr> trip_request = cent_trip,
              days = [\<lparr> day_index = 1, day_date = 739000, places = [cent_cart],
                         total_cost = 7741969234426593 / 140737488355328,
                         day_notes = Some ''Includes meals (~$40) and transport (~$15)'' \<rparr>,
                      \<lparr> day_index = 2, day_date = 739001, places = [],
                         total_cost = 55,
                         day_notes = Some ''Includes meals (~$40) and transport (~$15)'' \<rparr>],
              trip_total_cost = 7741265546984817 / 70368744177664,
              trip_notes = Some
                ''Itinerary created for 2 days with relaxed pace. Total cost is within budget.'' \<rparr>"
  unfolding create_itinerary_simple_fl_def ranked_places_fl_single Let_def
    cent_daily_plans_cart
  by (simp add: Itinerary_init_def cent_sums cent_totals cent_num_days cent_budget)

lemma cent_itinerary_kiosk:
  "create_itinerary_simple_fl double_round (float_sum double_round) cent_trip [cent_kiosk] (0, 0)
     = Inr \<lparr> trip_request = cent_trip,
              days = [\<lparr> day_index = 1, day_date = 739000, places = [cent_kiosk],
                         total_cost = 7743376609310147 / 140737488355328,
                         day_notes = Some ''Includes meals (~$40) and transport (~$15)'' \<rparr>,
                      \<lparr> day_index = 2, day_date = 739001, places = [],
                         total_cost = 55,
                         day_notes = Some ''Includes meals (~$40) and transport (~$15)'' \<rparr>],
              trip_total_cost = 7741969234426593 / 70368744177664,
              trip_notes = Some
                ''Itinerary created for 2 days with relaxed pace. Total cost is slightly over budget.'' \<rparr>"
  unfolding create_itinerary_simple_fl_def ranked_places_fl_single Let_def
    cent_daily_plans_kiosk
  by (simp add: Itinerary_init_def cent_sums cent_totals cent_num_days cent_budget)


lemma py_round_fl_hundredth:
  "\<exists>k. py_round_fl rnd x 2 = rnd (real_of_int k / 100)
       \<and> \<bar>real_of_int k - x * 100\<bar> \<le> 1 / 2
       \<and> (\<bar>real_of_int k - x * 100\<bar> = 1 / 2 \<longrightarrow> even k)"
proof (intro exI [of _ "round_half_even (x * 100)"] conjI impI)
  show "py_round_fl rnd x 2 = rnd (real_of_int (round_half_even (x * 100)) / 100)"
    by (simp add: py_round_fl_def)
  show "\<bar>real_of_int (round_half_even (x * 100)) - x * 100\<bar> \<le> 1 / 2"
    by (rule round_half_even_nearest)
  assume "\<bar>real_of_int (round_half_even (x * 100)) - x * 100\<bar> = 1 / 2"
  then show "even (round_half_even (x * 100))"
    by (rule round_half_even_tie)
qed

lemma double_round_nonneg:
  assumes "0 \<le> x"
  shows "0 \<le> double_round x"
proof (cases "x = 0")
  case True
  then show ?thesis by (simp add: double_round_def)
next
  case False
  let ?ulp = "2 powr (real_of_int \<lfloor>log 2 \<bar>x\<bar>\<rfloor> - 52)"
  have u: "0 < ?ulp" by simp
  then have "0 \<le> x / ?ulp" using assms by simp
  then have "0 \<le> round_half_even (x / ?ulp)" by (rule round_half_even_nonneg)
  then have "0 \<le> real_of_int (round_half_even (x / ?ulp)) * ?ulp"
    using u by simp
  then show ?thesis
    unfolding double_round_def Let_def using False by (simp only: if_False)
qed

lemma float_sum_nonneg:
  assumes r: "\<forall>x. 0 \<le> x \<longrightarrow> 0 \<le> rnd x" and "\<forall>x\<in>set xs. 0 \<le> x"
  shows "0 \<le> float_sum rnd xs"
proof -
  have "0 \<le> foldl (\<lambda>s x. rnd (s + x)) a xs" if "0 \<le> a" for a
    using that assms(2)
  proof (induction xs arbitrary: a)
    case Nil
    then show ?case by simp
  next
    case (Cons y ys)
    have "0 \<le> rnd (a + y)" using r Cons.prems by simp
    then show ?case using Cons.IH Cons.prems by simp
  qed
  then show ?thesis unfolding float_sum_def by simp
qed

lemma daily_plans_fl_returns:
  assumes "\<forall>x. 0 \<le> x \<longrightarrow> 0 \<le> rnd x" and "0 \<le> group_size trip"
    and "\<forall>p\<in>set ranked. 0 \<le> estimated_cost p"
  shows "\<exists>plans. daily_plans_fl rnd trip ranked = Inr plans"
proof -
  have "\<forall>d\<in>set [1 .. num_days trip]. 1 \<le> d" by simp
  from day_loop_fl_returns [OF this assms, of 0] show ?thesis
    unfolding daily_plans_fl_Inr by blast
qed

lemma create_itinerary_simple_fl_returns:
  assumes "valid_TripRequest trip" and "\<forall>p\<in>set ps. valid_Place p"
    and r: "\<forall>x. 0 \<le> x \<longrightarrow> 0 \<le> rnd x"
    and s: "\<forall>xs. (\<forall>x\<in>set xs. 0 \<le> x) \<longrightarrow> 0 \<le> fsum xs"
  shows "\<exists>it. create_itinerary_simple_fl rnd fsum trip ps cc = Inr it"
proof -
  have "mset (ranked_places_fl rnd trip ps cc) = mset ps"
    unfolding ranked_places_fl_def Let_def by (rule rank_mset)
  then have "set (ranked_places_fl rnd trip ps cc) = set ps"
    by (rule mset_eq_setD)
  then have v: "\<forall>p\<in>set (ranked_places_fl rnd trip ps cc). 0 \<le> estimated_cost p"
    using assms(2) by (simp add: valid_Place_def)
  have "0 \<le> group_size trip"
    using assms(1) by (simp add: valid_TripRequest_def)
  from daily_plans_fl_returns [OF r this v] obtain plans where
    p: "daily_plans_fl rnd trip (ranked_places_fl rnd trip ps cc) = Inr plans" by blast
  have "\<forall>x\<in>set (map total_cost plans). 0 \<le> x"
    using daily_plans_fl_cost(2) [OF p] by auto
  then have "0 \<le> fsum (map total_cost plans)"
    using s by blast
  then have "0 \<le> py_round_fl rnd (fsum (map total_cost plans)) 2"
    by (rule py_round_fl_nonneg [OF r])
  then show ?thesis
    unfolding create_itinerary_simple_fl_Inr using p by blast
qed

lemma cent_valid:
  "valid_TripRequest cent_trip"
  "\<forall>p\<in>set [cent_stall]. valid_Place p"
  "\<forall>p\<in>set [cent_cart]. valid_Place p"
  by (simp_all add: cent_defs valid_TripRequest_def valid_Place_def allowed_def
        double_round_up [of 6] double_round_down [of 5] double_round_down [of 7]
        round_half_even_def)

text \<open>
  Claim C7, as amended. In float arithmetic with any rounding function, the total of
  every day plan is \<^verbatim>\<open>round(day_cost, 2)\<close>: the float next to the hundredth that is
  nearest to \<open>day_cost\<close>, the even one of two equally near, where \<open>day_cost\<close> is the float
  sum, in this order, of the meal allowance of 40 per person, the costs for the group
  of the places of the day, and the transport allowance of 15 per person. The total of
  the itinerary is the sum of the day totals, rounded in the same way. The notes end in
  ``within budget'' when the sum of the day totals, before it is rounded, is at most the
  budget, and in ``slightly over budget'' otherwise. For a valid request and valid
  places the function returns an itinerary, provided that rounding and summation keep
  non-negative numbers non-negative.

  With the total of the itinerary in the place of the unrounded sum the statement fails
  on binary64 floats: for a budget of 110.02, two days and one place at 0.02 the day
  totals are 55.02 and 55.0, their float sum is 110.02000000000001 and the notes say
  ``slightly over budget'', while the total of the itinerary is 110.02, the budget.
\<close>

theorem cost_aggregation_float:
  "(daily_plans_fl rnd trip ranked = Inr plans \<longrightarrow>
      (\<forall>pl\<in>set plans.
         \<exists>k. total_cost pl = rnd (real_of_int k / 100)
            \<and> \<bar>real_of_int k
                 - rnd (running_cost_fl rnd trip (places pl)
                        + rnd (15 * float_of_int rnd (group_size trip))) * 100\<bar> \<le> 1 / 2
            \<and> (\<bar>real_of_int k
                  - rnd (running_cost_fl rnd trip (places pl)
                         + rnd (15 * float_of_int rnd (group_size trip))) * 100\<bar> = 1 / 2
                \<longrightarrow> even k)))
   \<and> (create_itinerary_simple_fl rnd fsum trip ps cc = Inr it \<longrightarrow>
        daily_plans_fl rnd trip (ranked_places_fl rnd trip ps cc) = Inr (days it)
        \<and> (\<exists>k. trip_total_cost it = rnd (real_of_int k / 100)
               \<and> \<bar>real_of_int k - fsum (map total_cost (days it)) * 100\<bar> \<le> 1 / 2
               \<and> (\<bar>real_of_int k - fsum (map total_cost (days it)) * 100\<bar> = 1 / 2
                   \<longrightarrow> even k))
        \<and> trip_notes it
            = Some (''Itinerary created for '' @ str_int (num_days trip)
                    @ '' days with '' @ pace trip @ '' pace. Total cost is ''
                    @ (if fsum (map total_cost (days it)) \<le> budget trip
                       then ''within budget'' else ''slightly over budget'') @ ''.''))
   \<and> (valid_TripRequest trip \<and> (\<forall>p\<in>set ps. valid_Place p)
        \<and> (\<forall>x. 0 \<le> x \<longrightarrow> 0 \<le> rnd x)
        \<and> (\<forall>xs. (\<forall>x\<in>set xs. 0 \<le> x) \<longrightarrow> 0 \<le> fsum xs) \<longrightarrow>
        (\<exists>it. create_itinerary_simple_fl rnd fsum trip ps cc = Inr it))"
proof (intro conjI impI ballI)
  fix pl
  assume "daily_plans_fl rnd trip ranked = Inr plans" and "pl \<in> set plans"
  then have "total_cost pl = day_total_fl rnd trip (places pl)"
    by (rule daily_plans_fl_cost(1))
  then show "\<exists>k. total_cost pl = rnd (real_of_int k / 100)
            \<and> \<bar>real_of_int k
                 - rnd (running_cost_fl rnd trip (places pl)
                        + rnd (15 * float_of_int rnd (group_size trip))) * 100\<bar> \<le> 1 / 2
            \<and> (\<bar>real_of_int k
                  - rnd (running_cost_fl rnd trip (places pl)
                         + rnd (15 * float_of_int rnd (group_size trip))) * 100\<bar> = 1 / 2
                \<longrightarrow> even k)"
    unfolding day_total_fl_def by (simp only: py_round_fl_hundredth)
next
  assume "valid_TripRequest trip \<and> (\<forall>p\<in>set ps. valid_Place p)
        \<and> (\<forall>x. 0 \<le> x \<longrightarrow> 0 \<le> rnd x)
        \<and> (\<forall>xs. (\<forall>x\<in>set xs. 0 \<le> x) \<longrightarrow> 0 \<le> fsum xs)"
  then show "\<exists>it. create_itinerary_simple_fl rnd fsum trip ps cc = Inr it"
    using create_itinerary_simple_fl_returns [of trip ps rnd fsum cc] by blast
next
  assume "create_itinerary_simple_fl rnd fsum trip ps cc = Inr it"
  then obtain plans where
    p: "daily_plans_fl rnd trip (ranked_places_fl rnd trip ps cc) = Inr plans"
    and it: "it = \<lparr> trip_request = trip, days = plans,
                  trip_total_cost = py_round_fl rnd (fsum (map total_cost plans)) 2,
                  trip_notes = Some (''Itinerary created for '' @ str_int (num_days trip)
                      @ '' days with '' @ pace trip @ '' pace. Total cost is ''
                      @ (if fsum (map total_cost plans) \<le> budget trip
                         then ''within budget'' else ''slightly over budget'') @ ''.'') \<rparr>"
    unfolding create_itinerary_simple_fl_Inr by blast
  have d: "days it = plans"
    and t: "trip_total_cost it = py_round_fl rnd (fsum (map total_cost plans)) 2"
    and n: "trip_notes it = Some (''Itinerary created for '' @ str_int (num_days trip)
                      @ '' days with '' @ pace trip @ '' pace. Total cost is ''
                      @ (if fsum (map total_cost plans) \<le> budget trip
                         then ''within budget'' else ''slightly over budget'') @ ''.'')"
    unfolding it by (rule Itinerary.select_convs)+
  show "daily_plans_fl rnd trip (ranked_places_fl rnd trip ps cc) = Inr (days it)"
    unfolding d by (rule p)
  show "\<exists>k. trip_total_cost it = rnd (real_of_int k / 100)
               \<and> \<bar>real_of_int k - fsum (map total_cost (days it)) * 100\<bar> \<le> 1 / 2
               \<and> (\<bar>real_of_int k - fsum (map total_cost (days it)) * 100\<bar> = 1 / 2
                   \<longrightarrow> even k)"
    unfolding d t by (rule py_round_fl_hundredth)
  show "trip_notes it
            = Some (''Itinerary created for '' @ str_int (num_days trip)
                    @ '' days with '' @ pace trip @ '' pace. Total cost is ''
                    @ (if fsum (map total_cost (days it)) \<le> budget trip
                       then ''within budget'' else ''slightly over budget'') @ ''.'')"
    unfolding d by (rule n)
qed


lemma cent_day_cost:
  "double_round (running_cost_fl double_round cent_trip [cent_stall]
                 + double_round (15 * float_of_int double_round (group_size cent_trip)))
     = 1936371917908869 / 35184372088832"
  "double_round (running_cost_fl double_round cent_trip [cent_cart]
                 + double_round (15 * float_of_int double_round (group_size cent_trip)))
     = 7741969234426593 / 140737488355328"
  by (simp_all add: running_cost_fl_def place_cost_fl_def float_of_int_def cent_defs
        round_half_even_def double_round_up [of 0] double_round_up [of 3]
        double_round_up [of 5] double_round_down [of 5] double_round_down [of 7])

lemma cent_hundredths:
  "double_round (5503 / 100) = 1936195996048425 / 35184372088832"
  "double_round (5501 / 100) = 7741969234426593 / 140737488355328"
  "double_round (11003 / 100) = 3871336460934185 / 35184372088832"
  "double_round (11001 / 100) = 7741265546984817 / 70368744177664"
  by (simp_all add: round_half_even_def double_round_up [of 5] double_round_up [of 6])

theorem cost_aggregation_float_witness:
  "valid_TripRequest cent_trip \<and> valid_Place cent_stall \<and> valid_Place cent_cart
   \<and> (\<exists>it. create_itinerary_simple_fl double_round (float_sum double_round) cent_trip
               [cent_stall] (0, 0) = Inr it
          \<and> map total_cost (days it) = [double_round (5503 / 100), 55]
          \<and> float_sum double_round (map total_cost (days it)) = double_round (11003 / 100)
          \<and> trip_total_cost it = double_round (11003 / 100)
          \<and> \<not> float_sum double_round (map total_cost (days it)) \<le> budget cent_trip
          \<and> trip_notes it = Some
               ''Itinerary created for 2 days with relaxed pace. Total cost is slightly over budget.'')
   \<and> (\<exists>it. create_itinerary_simple_fl double_round (float_sum double_round) cent_trip
               [cent_cart] (0, 0) = Inr it
          \<and> map total_cost (days it) = [double_round (5501 / 100), 55]
          \<and> float_sum double_round (map total_cost (days it)) = 483829096686551 / 4398046511104
          \<and> float_sum double_round (map total_cost (days it)) * 100 < 11001
          \<and> trip_total_cost it = double_round (11001 / 100)
          \<and> float_sum double_round (map total_cost (days it)) \<le> budget cent_trip
          \<and> trip_notes it = Some
               ''Itinerary created for 2 days with relaxed pace. Total cost is within budget.'')
   \<and> double_round (running_cost_fl double_round cent_trip [cent_stall]
                    + double_round (15 * float_of_int double_round (group_size cent_trip)))
       = 1936371917908869 / 35184372088832
   \<and> (1936371917908869 / 35184372088832 :: real) * 100 < 5503 + 1 / 2
   \<and> double_round (running_cost_fl double_round cent_trip [cent_cart]
                    + double_round (15 * float_of_int double_round (group_size cent_trip)))
       = 7741969234426593 / 140737488355328
   \<and> (7741969234426593 / 140737488355328 :: real) * 100 < 5501"
  using cost_aggregation_float
          [where rnd = double_round and fsum = "float_sum double_round" and trip = cent_trip
             and ranked = "[cent_stall]" and ps = "[cent_stall]" and cc = "(0, 0)"
             and plans = "[\<lparr> day_index = 1, day_date = 739000, places = [cent_stall],
                             total_cost = 1936195996048425 / 35184372088832,
                             day_notes = Some ''Includes meals (~$40) and transport (~$15)'' \<rparr>,
                           \<lparr> day_index = 2, day_date = 739001, places = [],
                             total_cost = 55,
                             day_notes = Some ''Includes meals (~$40) and transport (~$15)'' \<rparr>]"
             and it = "\<lparr> trip_request = cent_trip,
                days = [\<lparr> day_index = 1, day_date = 739000, places = [cent_stall],
                           total_cost = 1936195996048425 / 35184372088832,
                           day_notes = Some ''Includes meals (~$40) and transport (~$15)'' \<rparr>,
                        \<lparr> day_index = 2, day_date = 739001, places = [],
                           total_cost = 55,
                           day_notes = Some ''Includes meals (~$40) and transport (~$15)'' \<rparr>],
                trip_total_cost = 3871336460934185 / 35184372088832,
                trip_notes = Some
                  ''Itinerary created for 2 days with relaxed pace. Total cost is slightly over budget.'' \<rparr>"]
        cost_aggregation_float
          [where rnd = double_round and fsum = "float_sum double_round" and trip = cent_trip
             and ranked = "[cent_cart]" and ps = "[cent_cart]" and cc = "(0, 0)"
             and plans = "[\<lparr> day_index = 1, day_date = 739000, places = [cent_cart],
                             total_cost = 7741969234426593 / 140737488355328,
                             day_notes = Some ''Includes meals (~$40) and transport (~$15)'' \<rparr>,
                           \<lparr> day_index = 2, day_date = 739001, places = [],
                             total_cost = 55,
                             day_notes = Some ''Includes meals (~$40) and transport (~$15)'' \<rparr>]"
             and it = "\<lparr> trip_request = cent_trip,
                days = [\<lparr> day_index = 1, day_date = 739000, places = [cent_cart],
                           total_cost = 7741969234426593 / 140737488355328,
                           day_notes = Some ''Includes meals (~$40) and transport (~$15)'' \<rparr>,
                        \<lparr> day_index = 2, day_date = 739001, places = [],
                           total_cost = 55,
                           day_notes = Some ''Includes meals (~$40) and transport (~$15)'' \<rparr>],
                trip_total_cost = 7741265546984817 / 70368744177664,
                trip_notes = Some
                  ''Itinerary created for 2 days with relaxed pace. Total cost is within budget.'' \<rparr>"]
        cent_valid
  by (simp add: cent_itinerary_stall cent_itinerary_cart cent_daily_plans_stall
        cent_daily_plans_cart cent_sums cent_budget cent_day_cost cent_hundredths)

theorem cost_note_counterexample:
  "create_itinerary_simple_fl double_round (float_sum double_round) cent_trip [cent_kiosk] (0, 0)
     = Inr \<lparr> trip_request = cent_trip,
              days = [\<lparr> day_index = 1, day_date = 739000, places = [cent_kiosk],
                         total_cost = 7743376609310147 / 140737488355328,
                         day_notes = Some ''Includes meals (~$40) and transport (~$15)'' \<rparr>,
                      \<lparr> day_index = 2, day_date = 739001, places = [],
                         total_cost = 55,
                         day_notes = Some ''Includes meals (~$40) and transport (~$15)'' \<rparr>],
              trip_total_cost = 7741969234426593 / 70368744177664,
              trip_notes = Some
                ''Itinerary created for 2 days with relaxed pace. Total cost is slightly over budget.'' \<rparr>
   \<and> budget cent_trip = 7741969234426593 / 70368744177664
   \<and> (7741969234426593 / 70368744177664 :: real) \<le> budget cent_trip
   \<and> float_sum double_round [7743376609310147 / 140737488355328, 55]
       = 3870984617213297 / 35184372088832
   \<and> \<not> float_sum double_round [7743376609310147 / 140737488355328, 55] \<le> budget cent_trip"
  by (simp add: cent_itinerary_kiosk cent_budget cent_sums)

end
